theory Spec2Isabelle
  imports Main "HOL-Library.Multiset"
begin

section \<open>The node e2e runner (test/e2e_node/runner/run_e2e.go)\<close>

text \<open>
  The runner talks to three collaborators: the GCE compute API, the helpers of package
  \<open>e2e_node\<close> (archive construction, ssh, remote run) and the local operating system.
  None of them is part of the file, so each is a field of an environment record: a function
  from the current world \<open>'w\<close> to an answer and the next world. The runner's own state is
  the world, the memoised archive \<open>arc\<close> and a trace of the calls it has issued, in the
  order it issued them.
\<close>

subsection \<open>Errors, results and the compute API's data\<close>

text \<open>
  A Go \<open>error\<close> is either a value handed back by a collaborator or one of the messages
  the runner builds with \<open>fmt.Errorf\<close>; \<open>nil\<close> is \<open>None\<close>.
\<close>

datatype error =
    External string
  | NotRunning string string
  | CouldNotCreate string string
  | CommandFailed string string
  | ServerNotFound string string
  | UnableToCreateArchive error
  | UnableToCreateInstance string error

record TestResult =
  tr_output :: string
  tr_err :: "error option"
  tr_host :: string
  tr_exitOk :: bool

record GCEImage =
  Image :: string
  Project :: string

record AccessConfig =
  ac_Type :: string
  ac_Name :: string
  ac_NatIP :: string

record NetworkInterface =
  AccessConfigs :: "AccessConfig list"

record AttachedDisk =
  AutoDelete :: bool
  Boot :: bool
  disk_Type :: string
  SourceImage :: string

record Instance =
  inst_Name :: string
  MachineType :: string
  Status :: string
  NetworkInterfaces :: "NetworkInterface list"
  Disks :: "AttachedDisk list"
  Metadata :: "(string \<times> string) list option"

text \<open>The command-line flags the runner reads after \<open>flag.Parse\<close>.\<close>

record flags =
  flag_testArgs :: string
  flag_instanceNamePrefix :: string
  flag_zone :: string
  flag_project :: string
  flag_hosts :: string
  flag_cleanup :: bool
  flag_deleteInstances :: bool
  flag_setupNode :: bool
  flag_instanceMetadata :: string

subsection \<open>The trace and the state\<close>

datatype event =
    Insert string string string
  | Get string string string
  | Delete string string string
  | Sleep nat
  | AddHostnameIpCall string string
  | SshCall string "string list"
  | CreateTestArchiveCall
  | RunRemoteCall string string bool nat bool string
  | Remove string
  | DefaultClientCall
  | ComputeNewCall
  | Log string
  | PrintInitImage string
  | PrintInitHost string
  | PrintSeparator
  | PrintFailure string string error
  | PrintSuccess string string
  | PrintErrCount nat

record Archive =
  once_done :: bool
  arc_path :: string
  arc_err :: "error option"

record 'w state =
  world :: 'w
  trace :: "event list"
  arc :: Archive

record 'w env =
  Instances_Insert :: "string \<Rightarrow> string \<Rightarrow> Instance \<Rightarrow> 'w \<Rightarrow> (error + string option) \<times> 'w"
  Instances_Get :: "string \<Rightarrow> string \<Rightarrow> string \<Rightarrow> 'w \<Rightarrow> (error + Instance) \<times> 'w"
  Instances_Delete :: "string \<Rightarrow> string \<Rightarrow> string \<Rightarrow> 'w \<Rightarrow> error option \<times> 'w"
  CreateTestArchive :: "'w \<Rightarrow> (string \<times> error option) \<times> 'w"
  RunRemote :: "string \<Rightarrow> string \<Rightarrow> bool \<Rightarrow> nat \<Rightarrow> bool \<Rightarrow> string \<Rightarrow> 'w
                 \<Rightarrow> (string \<times> bool \<times> error option) \<times> 'w"
  RunSshCommand :: "string \<Rightarrow> string list \<Rightarrow> 'w \<Rightarrow> (string \<times> error option) \<times> 'w"
  AddHostnameIp :: "string \<Rightarrow> string \<Rightarrow> 'w \<Rightarrow> 'w"
  GetHostnameOrIp :: "string \<Rightarrow> 'w \<Rightarrow> string"
  os_Remove :: "string \<Rightarrow> 'w \<Rightarrow> 'w"
  ioutil_ReadFile :: "string \<Rightarrow> 'w \<Rightarrow> error + string"
  google_DefaultClient :: "'w \<Rightarrow> error option \<times> 'w"
  compute_New :: "'w \<Rightarrow> error option \<times> 'w"

definition emit :: "event \<Rightarrow> 'w state \<Rightarrow> 'w state" where
  "emit e s = s\<lparr>trace := trace s @ [e]\<rparr>"

definition init_state :: "'w \<Rightarrow> 'w state" where
  "init_state w = \<lparr>world = w, trace = [],
                   arc = \<lparr>once_done = False, arc_path = [], arc_err = None\<rparr>\<rparr>"

subsection \<open>The archive: getArchive and deleteArchive\<close>

text \<open>
  \<open>sync.Once\<close> runs the function of the first \<open>Do\<close> and makes every other caller
  wait for it, so calls of \<open>getArchive\<close> take effect one after the other; \<open>once_done\<close>
  is the flag of the \<open>Once\<close>.
\<close>

definition getArchive :: "'w env \<Rightarrow> 'w state \<Rightarrow> (string \<times> error option) \<times> 'w state" where
  "getArchive E s =
     (let s1 = (if once_done (arc s) then s
                else (let (r, w') = CreateTestArchive E (world s)
                      in (emit CreateTestArchiveCall s)
                           \<lparr>world := w',
                            arc := \<lparr>once_done = True, arc_path = fst r, arc_err = snd r\<rparr>\<rparr>))
      in ((arc_path (arc s1), arc_err (arc s1)), s1))"

definition deleteArchive :: "'w env \<Rightarrow> 'w state \<Rightarrow> 'w state" where
  "deleteArchive E s =
     (let (r, s1) = getArchive E s
      in case snd r of
           Some e \<Rightarrow> s1
         | None \<Rightarrow> (emit (Remove (fst r)) s1)\<lparr>world := os_Remove E (fst r) (world s1)\<rparr>)"

subsection \<open>Strings\<close>

text \<open>
  \<open>strings.ToUpper\<close>, \<open>strings.Contains\<close> and \<open>strings.Split\<close> with a
  one-character separator, on strings of bytes. \<open>strings_ToUpper\<close> maps the ASCII
  letters only: the status strings of the compute API are ASCII.
\<close>

definition toUpper_char :: "char \<Rightarrow> char" where
  "toUpper_char c =
     (let n = (of_char c :: nat) in if 97 \<le> n \<and> n \<le> 122 then char_of (n - 32) else c)"

definition strings_ToUpper :: "string \<Rightarrow> string" where
  "strings_ToUpper s = map toUpper_char s"

definition hasPrefix :: "string \<Rightarrow> string \<Rightarrow> bool" where
  "hasPrefix s p = (take (length p) s = p)"

fun strings_Contains :: "string \<Rightarrow> string \<Rightarrow> bool" where
  "strings_Contains [] sub = (sub = [])"
| "strings_Contains (c # cs) sub = (hasPrefix (c # cs) sub \<or> strings_Contains cs sub)"

fun strings_Split :: "string \<Rightarrow> char \<Rightarrow> string list" where
  "strings_Split [] sep = [[]]"
| "strings_Split (c # cs) sep =
     (if c = sep then [] # strings_Split cs sep
      else (case strings_Split cs sep of
              [] \<Rightarrow> [[c]]
            | w # ws \<Rightarrow> (c # w) # ws))"

subsection \<open>Names and instance metadata\<close>

definition imageToInstanceName :: "flags \<Rightarrow> string \<Rightarrow> string" where
  "imageToInstanceName F img = flag_instanceNamePrefix F @ ''-'' @ img"

definition sourceImage :: "string \<Rightarrow> string \<Rightarrow> string" where
  "sourceImage img imageProject = ''projects/'' @ imageProject @ ''/global/images/'' @ img"

definition machineType :: "flags \<Rightarrow> string" where
  "machineType F = ''zones/'' @ flag_zone F @ ''/machineTypes/n1-standard-1''"

text \<open>
  A Go map as an association list: assigning to a key that is present replaces its value.
  Go ranges over a map in an unspecified order; the model ranges in the list's order.
\<close>

fun map_put :: "string \<Rightarrow> string \<Rightarrow> (string \<times> string) list \<Rightarrow> (string \<times> string) list" where
  "map_put k v [] = [(k, v)]"
| "map_put k v ((k', v') # m) = (if k = k' then (k', v) # m else (k', v') # map_put k v m)"

fun parseItems :: "'w env \<Rightarrow> string list \<Rightarrow> (string \<times> string) list \<Rightarrow> 'w state
                     \<Rightarrow> (string \<times> string) list \<times> 'w state" where
  "parseItems E [] metadata s = (metadata, s)"
| "parseItems E (x # ss) metadata s =
     (case strings_Split x (CHR ''='') of
        [k, v] \<Rightarrow> parseItems E ss (map_put k v metadata) s
      | _ \<Rightarrow>
        (case strings_Split x (CHR ''<'') of
           [k, p] \<Rightarrow>
             (case ioutil_ReadFile E p (world s) of
                Inl e \<Rightarrow> parseItems E ss metadata
                           (emit (Log (''Failed to read metadata file '' @ p)) s)
              | Inr v \<Rightarrow> parseItems E ss (map_put k v metadata) s)
         | _ \<Rightarrow> parseItems E ss metadata (emit (Log (''Invalid instance metadata: '' @ x)) s)))"

definition parseInstanceMetadata :: "'w env \<Rightarrow> string \<Rightarrow> 'w state
                                       \<Rightarrow> (string \<times> string) list \<times> 'w state" where
  "parseInstanceMetadata E str s = parseItems E (strings_Split str (CHR '','')) [] s"

subsection \<open>Provisioning: createInstance\<close>

fun getExternalIp_from :: "NetworkInterface list \<Rightarrow> string" where
  "getExternalIp_from [] = []"
| "getExternalIp_from (ni # nis) =
     (case find (\<lambda>ac. length (ac_NatIP ac) > 0) (AccessConfigs ni) of
        Some ac \<Rightarrow> ac_NatIP ac
      | None \<Rightarrow> getExternalIp_from nis)"

definition getExternalIp :: "Instance \<Rightarrow> string" where
  "getExternalIp instance = getExternalIp_from (NetworkInterfaces instance)"

definition called :: "event \<Rightarrow> 'w \<Rightarrow> 'w state \<Rightarrow> 'w state" where
  "called e w' s = s\<lparr>world := w', trace := trace s @ [e]\<rparr>"

text \<open>
  One pass through the body of the polling loop, for loop counter \<open>i\<close>. It gives the
  values of \<open>instanceRunning\<close> and \<open>err\<close> at the end of the pass: every path of the body
  assigns \<open>err\<close>.
\<close>

definition attempt :: "'w env \<Rightarrow> flags \<Rightarrow> string \<Rightarrow> nat \<Rightarrow> 'w state
                         \<Rightarrow> bool \<times> error option \<times> 'w state" where
  "attempt E F name i s =
     (let s0 = (if i > 0 then emit (Sleep 20) s else s);
          (r, w1) = Instances_Get E (flag_project F) (flag_zone F) name (world s0);
          s1 = called (Get (flag_project F) (flag_zone F) name) w1 s0
      in case r of
           Inl e \<Rightarrow> (False, Some e, s1)
         | Inr instance \<Rightarrow>
             if strings_ToUpper (Status instance) \<noteq> ''RUNNING''
             then (False, Some (NotRunning name (Status instance)), s1)
             else
               (let externalIp = getExternalIp instance;
                    s2 = (if length externalIp > 0
                          then called (AddHostnameIpCall name externalIp)
                                 (AddHostnameIp E name externalIp (world s1)) s1
                          else s1);
                    args = [GetHostnameOrIp E name (world s2),
                            ''--'', ''sudo'', ''docker'', ''version''];
                    (r2, w3) = RunSshCommand E ''ssh'' args (world s2);
                    s3 = called (SshCall ''ssh'' args) w3 s2
                in case snd r2 of
                     Some e \<Rightarrow> (False, Some (CommandFailed name (fst r2)), s3)
                   | None \<Rightarrow>
                       if \<not> strings_Contains (fst r2) ''Server''
                       then (False, Some (ServerNotFound name (fst r2)), s3)
                       else (True, None, s3)))"

function poll :: "'w env \<Rightarrow> flags \<Rightarrow> string \<Rightarrow> nat \<Rightarrow> bool \<Rightarrow> error option \<Rightarrow> 'w state
                    \<Rightarrow> error option \<times> 'w state" where
  "poll E F name i instanceRunning err s =
     (if i < 30 \<and> \<not> instanceRunning
      then (let (r, e, s') = attempt E F name i s in poll E F name (Suc i) r e s')
      else (err, s))"
  by pat_completeness auto
termination
  by (relation "measure (\<lambda>(E, F, name, i, r, e, s). 30 - i)") auto

definition createInstance :: "'w env \<Rightarrow> flags \<Rightarrow> string \<Rightarrow> string \<Rightarrow> 'w state
                                \<Rightarrow> (string \<times> error option) \<times> 'w state" where
  "createInstance E F img imageProject s =
     (let name = imageToInstanceName F img;
          (md, s0) = (if flag_instanceMetadata F \<noteq> []
                      then (let (raw, s') = parseInstanceMetadata E (flag_instanceMetadata F) s
                            in (Some raw, s'))
                      else (None, s));
          i = \<lparr>inst_Name = name, MachineType = machineType F, Status = [],
               NetworkInterfaces =
                 [\<lparr>AccessConfigs =
                     [\<lparr>ac_Type = ''ONE_TO_ONE_NAT'', ac_Name = ''External NAT'', ac_NatIP = []\<rparr>]\<rparr>],
               Disks = [\<lparr>AutoDelete = True, Boot = True, disk_Type = ''PERSISTENT'',
                         SourceImage = sourceImage img imageProject\<rparr>],
               Metadata = md\<rparr>;
          (op, w1) = Instances_Insert E (flag_project F) (flag_zone F) i (world s0);
          s1 = called (Insert (flag_project F) (flag_zone F) name) w1 s0
      in case op of
           Inl e \<Rightarrow> (([], Some e), s1)
         | Inr (Some op_Error) \<Rightarrow> (([], Some (CouldNotCreate name op_Error)), s1)
         | Inr None \<Rightarrow> (let (err, s2) = poll E F name 0 False None s1 in ((name, err), s2)))"

definition deleteInstance :: "'w env \<Rightarrow> flags \<Rightarrow> string \<Rightarrow> 'w state \<Rightarrow> 'w state" where
  "deleteInstance E F img s =
     (let name = imageToInstanceName F img;
          (err, w1) = Instances_Delete E (flag_project F) (flag_zone F) name (world s);
          s1 = called (Delete (flag_project F) (flag_zone F) name) w1 s
      in case err of
           Some e \<Rightarrow> emit (Log (''Error deleting instance '' @ name)) s1
         | None \<Rightarrow> s1)"

subsection \<open>Running one target: testHost and testImage\<close>

definition testHost :: "'w env \<Rightarrow> flags \<Rightarrow> string \<Rightarrow> bool \<Rightarrow> nat \<Rightarrow> bool \<Rightarrow> 'w state
                          \<Rightarrow> TestResult \<times> 'w state" where
  "testHost E F hostname deleteFiles junitFileNum setupNode s =
     (let (r, w1) = Instances_Get E (flag_project F) (flag_zone F) hostname (world s);
          s1 = called (Get (flag_project F) (flag_zone F) hostname) w1 s
      in case r of
           Inl e \<Rightarrow> (\<lparr>tr_output = [], tr_err = Some e, tr_host = hostname, tr_exitOk = False\<rparr>, s1)
         | Inr instance \<Rightarrow>
             if strings_ToUpper (Status instance) \<noteq> ''RUNNING''
             then (\<lparr>tr_output = [], tr_err = Some (NotRunning hostname (Status instance)),
                    tr_host = hostname, tr_exitOk = False\<rparr>, s1)
             else
               (let externalIp = getExternalIp instance;
                    s2 = (if length externalIp > 0
                          then called (AddHostnameIpCall hostname externalIp)
                                 (AddHostnameIp E hostname externalIp (world s1)) s1
                          else s1);
                    (a, s3) = getArchive E s2
                in case snd a of
                     Some e \<Rightarrow> (\<lparr>tr_output = [], tr_err = Some (UnableToCreateArchive e),
                                 tr_host = [], tr_exitOk = False\<rparr>, s3)
                   | None \<Rightarrow>
                       (let (res, w4) = RunRemote E (fst a) hostname deleteFiles junitFileNum
                                          setupNode (flag_testArgs F) (world s3);
                            s4 = called (RunRemoteCall (fst a) hostname deleteFiles junitFileNum
                                           setupNode (flag_testArgs F)) w4 s3
                        in (\<lparr>tr_output = fst res, tr_err = snd (snd res), tr_host = hostname,
                             tr_exitOk = fst (snd res)\<rparr>, s4))))"

text \<open>
  The deferred \<open>deleteInstance\<close> is registered right after \<open>createInstance\<close> returns, when
  \<open>--delete-instances\<close> is set, and runs when \<open>testImage\<close> returns, after the result
  has been computed.
\<close>

definition testImage :: "'w env \<Rightarrow> flags \<Rightarrow> string \<Rightarrow> string \<Rightarrow> nat \<Rightarrow> 'w state
                           \<Rightarrow> TestResult \<times> 'w state" where
  "testImage E F img imageProject junitFileNum s =
     (let (c, s1) = createInstance E F img imageProject s;
          (tr, s2) =
            (case snd c of
               Some e \<Rightarrow> (\<lparr>tr_output = [], tr_err = Some (UnableToCreateInstance img e),
                           tr_host = [], tr_exitOk = False\<rparr>, s1)
             | None \<Rightarrow>
                 (let deleteFiles = (\<not> flag_deleteInstances F \<and> flag_cleanup F)
                  in testHost E F (fst c) deleteFiles junitFileNum (flag_setupNode F) s1))
      in (tr, if flag_deleteInstances F then deleteInstance E F img s2 else s2))"

subsection \<open>The compute client\<close>

text \<open>
  \<open>getComputeClient\<close> tries ten times, six seconds apart. The result is whether a
  service was obtained, and the error.
\<close>

function clientLoop :: "'w env \<Rightarrow> nat \<Rightarrow> error option \<Rightarrow> 'w state
                          \<Rightarrow> (bool \<times> error option) \<times> 'w state" where
  "clientLoop E i err s =
     (if i < 10
      then (let s0 = (if i > 0 then emit (Sleep 6) s else s);
                (e1, w1) = google_DefaultClient E (world s0);
                s1 = called DefaultClientCall w1 s0
            in case e1 of
                 Some e \<Rightarrow> clientLoop E (Suc i) (Some e) s1
               | None \<Rightarrow>
                   (let (e2, w2) = compute_New E (world s1);
                        s2 = called ComputeNewCall w2 s1
                    in case e2 of
                         Some e \<Rightarrow> clientLoop E (Suc i) (Some e) s2
                       | None \<Rightarrow> ((True, None), s2)))
      else ((False, err), s))"
  by pat_completeness auto
termination
  by (relation "measure (\<lambda>(E, i, err, s). 10 - i)") auto

definition getComputeClient :: "'w env \<Rightarrow> 'w state \<Rightarrow> (bool \<times> error option) \<times> 'w state" where
  "getComputeClient E s = clientLoop E 0 None s"

subsection \<open>The orchestrator: main from the launch of the archive goroutine on\<close>

text \<open>
  \<open>main\<close> starts one goroutine for the archive and one per target, each of which sends
  its result on the unbuffered channel \<open>results\<close>. The model runs each goroutine to its
  send without interruption, in the order given by a schedule: a list of positions in the
  list of launched goroutines. The channel is the list of results in that order. The image
  map is given as the list of its entries in the order \<open>range\<close> visits them.
\<close>

datatype task =
    GetArchiveTask
  | ImageTask string string nat
  | HostTask string nat

fun launchImages :: "(string \<times> GCEImage) list \<Rightarrow> nat \<Rightarrow> task list \<Rightarrow> 'w state
                       \<Rightarrow> nat \<times> task list \<times> 'w state" where
  "launchImages [] running ts s = (running, ts, s)"
| "launchImages ((shortName, img) # rest) running ts s =
     launchImages rest (Suc running)
       (ts @ [ImageTask (Image img) (Project img) (Suc running)])
       (emit (PrintInitImage shortName) s)"

fun launchHosts :: "string list \<Rightarrow> nat \<Rightarrow> task list \<Rightarrow> 'w state
                      \<Rightarrow> nat \<times> task list \<times> 'w state" where
  "launchHosts [] running ts s = (running, ts, s)"
| "launchHosts (hostname # rest) running ts s =
     launchHosts rest (Suc running) (ts @ [HostTask hostname (Suc running)])
       (emit (PrintInitHost hostname) s)"

definition run_task :: "'w env \<Rightarrow> flags \<Rightarrow> task \<Rightarrow> 'w state \<Rightarrow> TestResult option \<times> 'w state" where
  "run_task E F t s =
     (case t of
        GetArchiveTask \<Rightarrow> (None, snd (getArchive E s))
      | ImageTask img imageProject junitFileNum \<Rightarrow>
          (let (tr, s1) = testImage E F img imageProject junitFileNum s in (Some tr, s1))
      | HostTask hostname junitFileNum \<Rightarrow>
          (let (tr, s1) = testHost E F hostname (flag_cleanup F) junitFileNum (flag_setupNode F) s
           in (Some tr, s1)))"

fun run_tasks :: "'w env \<Rightarrow> flags \<Rightarrow> task list \<Rightarrow> 'w state \<Rightarrow> TestResult list \<times> 'w state" where
  "run_tasks E F [] s = ([], s)"
| "run_tasks E F (t # ts) s =
     (let (r, s1) = run_task E F t s;
          (rs, s2) = run_tasks E F ts s1
      in ((case r of None \<Rightarrow> rs | Some tr \<Rightarrow> tr # rs), s2))"

definition scheduled :: "nat list \<Rightarrow> task list \<Rightarrow> task list" where
  "scheduled sched ts = map (\<lambda>i. ts ! i) (filter (\<lambda>i. i < length ts) sched)"

text \<open>
  The receive loop. A receive from a channel on which nothing more will be sent blocks for
  ever: the loop then has no result.
\<close>

function receive :: "nat \<Rightarrow> nat \<Rightarrow> TestResult list \<Rightarrow> nat \<Rightarrow> bool \<Rightarrow> 'w state
                       \<Rightarrow> (nat \<times> bool \<times> 'w state) option" where
  "receive i running results errCount exitOk s =
     (if i < running
      then (case results of
              [] \<Rightarrow> None
            | tr # rest \<Rightarrow>
                (let s1 = emit PrintSeparator s;
                     (errCount', s2) =
                       (case tr_err tr of
                          Some e \<Rightarrow> (Suc errCount,
                                     emit (PrintFailure (tr_host tr) (tr_output tr) e) s1)
                        | None \<Rightarrow> (errCount, emit (PrintSuccess (tr_host tr) (tr_output tr)) s1))
                 in receive (Suc i) running rest errCount' (exitOk \<and> tr_exitOk tr)
                      (emit PrintSeparator s2)))
      else Some (errCount, exitOk, s))"
  by pat_completeness auto
termination
  by (relation "measure (\<lambda>(i, running, results, errCount, exitOk, s). running - i)") auto

text \<open>
  The launch loops of \<open>main\<close>: the goroutines in launch order, and \<open>running\<close>.
\<close>

definition launch :: "flags \<Rightarrow> (string \<times> GCEImage) list \<Rightarrow> 'w state
                        \<Rightarrow> nat \<times> task list \<times> 'w state" where
  "launch F gceImages s =
     (let (running, ts, s1) = launchImages gceImages 0 [GetArchiveTask] s
      in if flag_hosts F \<noteq> []
         then launchHosts (strings_Split (flag_hosts F) (CHR '','')) running ts s1
         else (running, ts, s1))"

text \<open>
  The result of \<open>main\<close> is the exit code of the process, or nothing when the receive loop
  blocks. \<open>glog.Fatalf\<close> and \<open>os.Exit\<close> end the process at once, so the deferred
  \<open>deleteArchive\<close> runs only when \<open>main\<close> returns.
  The goroutines, that of the archive included, are run after the compute client has been
  obtained: where \<open>getComputeClient\<close> fails and the process ends with code 255, the
  code may already have built the archive, and the model has not.
\<close>

definition main :: "'w env \<Rightarrow> flags \<Rightarrow> (string \<times> GCEImage) list \<Rightarrow> nat list \<Rightarrow> 'w state
                      \<Rightarrow> nat option \<times> 'w state" where
  "main E F gceImages sched s =
     (let (c, s1) = getComputeClient E s
      in case snd c of
           Some e \<Rightarrow> (Some 255, emit (Log ''Unable to create gcloud compute service'') s1)
         | None \<Rightarrow>
             (let (running, ts, s2) = launch F gceImages s1;
                  (results, s3) = run_tasks E F (scheduled sched ts) s2
              in case receive 0 running results 0 True s3 of
                   None \<Rightarrow> (None, s3)
                 | Some (errCount, exitOk, s4) \<Rightarrow>
                     if \<not> exitOk
                     then (Some 1, emit (PrintErrCount errCount) s4)
                     else (Some 0, deleteArchive E s4)))"

subsection \<open>Callers of getArchive, and counting calls in a trace\<close>

text \<open>
  A sequence of callers of \<open>getArchive\<close>: before each call the rest of the process may
  have changed the world in any way (the function in the list), but only \<open>getArchive\<close>
  writes \<open>arc\<close>.
\<close>

fun getArchive_calls :: "'w env \<Rightarrow> ('w \<Rightarrow> 'w) list \<Rightarrow> 'w state
                           \<Rightarrow> (string \<times> error option) list \<times> 'w state" where
  "getArchive_calls E [] s = ([], s)"
| "getArchive_calls E (f # fs) s =
     (let (r, s1) = getArchive E (s\<lparr>world := f (world s)\<rparr>);
          (rs, s2) = getArchive_calls E fs s1
      in (r # rs, s2))"

definition constructions :: "event list \<Rightarrow> nat" where
  "constructions tr = length (filter (\<lambda>e. e = CreateTestArchiveCall) tr)"

subsection \<open>A concrete environment\<close>

text \<open>
  A small world to run the definitions in: the number of status polls answered so far and
  the files on disk. The compute API reports status \<open>st n\<close> when \<open>n\<close> polls have
  been answered before, the archive construction succeeds when \<open>b\<close> holds, and the remote test run exits zero when \<open>x\<close> holds
  and the host is not the one called \<open>failing-host\<close>.
\<close>

record demo_world =
  polls :: nat
  files :: "string list"

definition demoE :: "(nat \<Rightarrow> string) \<Rightarrow> bool \<Rightarrow> bool \<Rightarrow> demo_world env" where
  "demoE st b x =
     \<lparr>Instances_Insert = (\<lambda>p z i w. (Inr None, w)),
      Instances_Get = (\<lambda>p z n w.
         (Inr \<lparr>inst_Name = n, MachineType = [],
               Status = st (polls w),
               NetworkInterfaces = [], Disks = [], Metadata = None\<rparr>,
          w\<lparr>polls := Suc (polls w)\<rparr>)),
      Instances_Delete = (\<lambda>p z n w. (None, w)),
      CreateTestArchive = (\<lambda>w.
         if b then ((''/tmp/e2e.tar.gz'', None), w\<lparr>files := ''/tmp/e2e.tar.gz'' # files w\<rparr>)
         else (([], Some (External ''build failed'')), w)),
      RunRemote = (\<lambda>path hostname deleteFiles n setupNode args w.
         ((''ran'', x \<and> hostname \<noteq> ''failing-host'', None), w)),
      RunSshCommand = (\<lambda>cmd args w. ((''Server: up'', None), w)),
      AddHostnameIp = (\<lambda>hostname ip w. w),
      GetHostnameOrIp = (\<lambda>hostname w. hostname),
      os_Remove = (\<lambda>p w. w\<lparr>files := removeAll p (files w)\<rparr>),
      ioutil_ReadFile = (\<lambda>p w. Inl (External ''no such file'')),
      google_DefaultClient = (\<lambda>w. (None, w)),
      compute_New = (\<lambda>w. (None, w))\<rparr>"

definition always_running :: "nat \<Rightarrow> string" where
  "always_running n = ''RUNNING''"

definition never_running :: "nat \<Rightarrow> string" where
  "never_running n = ''STAGING''"


definition demoF :: flags where
  "demoF = \<lparr>flag_testArgs = [], flag_instanceNamePrefix = ''tmp-node-e2e-0a1b2c3d'',
            flag_zone = ''us-central1-f'', flag_project = ''proj'', flag_hosts = [],
            flag_cleanup = True, flag_deleteInstances = True, flag_setupNode = False,
            flag_instanceMetadata = []\<rparr>"

definition demo_w0 :: demo_world where
  "demo_w0 = \<lparr>polls = 0, files = []\<rparr>"

subsection \<open>Reading a trace\<close>

text \<open>
  Counts of the calls in a trace, the seconds slept in it, and what the collaborators answer
  in a world: \<open>not_running\<close> is a status poll that failed or reported another status
  than RUNNING; \<open>ready E F name w\<close> says that in world \<open>w\<close> the poll reports
  RUNNING and the docker probe that follows it succeeds and mentions a server.
\<close>

fun is_Get :: "event \<Rightarrow> bool" where
  "is_Get (Get p z n) = True"
| "is_Get _ = False"

fun is_SshCall :: "event \<Rightarrow> bool" where
  "is_SshCall (SshCall c args) = True"
| "is_SshCall _ = False"

fun seconds :: "event \<Rightarrow> nat" where
  "seconds (Sleep n) = n"
| "seconds _ = 0"

definition gets :: "event list \<Rightarrow> nat" where
  "gets tr = length (filter is_Get tr)"

definition sshs :: "event list \<Rightarrow> nat" where
  "sshs tr = length (filter is_SshCall tr)"

definition slept :: "event list \<Rightarrow> nat" where
  "slept tr = sum_list (map seconds tr)"

definition not_running :: "error + Instance \<Rightarrow> bool" where
  "not_running r = (case r of Inl e \<Rightarrow> True
                    | Inr inst \<Rightarrow> strings_ToUpper (Status inst) \<noteq> ''RUNNING'')"

definition ready :: "'w env \<Rightarrow> flags \<Rightarrow> string \<Rightarrow> 'w \<Rightarrow> bool" where
  "ready E F name w =
     (case Instances_Get E (flag_project F) (flag_zone F) name w of
        (Inl e, w1) \<Rightarrow> False
      | (Inr inst, w1) \<Rightarrow>
          strings_ToUpper (Status inst) = ''RUNNING'' \<and>
          (let w2 = (if length (getExternalIp inst) > 0
                     then AddHostnameIp E name (getExternalIp inst) w1 else w1);
               r = fst (RunSshCommand E ''ssh''
                          [GetHostnameOrIp E name w2, ''--'', ''sudo'', ''docker'', ''version''] w2)
           in snd r = None \<and> strings_Contains (fst r) ''Server''))"

definition attempt_events :: "event list \<Rightarrow> bool" where
  "attempt_events evs =
     (evs = [] \<or> (\<exists>c a. evs = [SshCall c a])
      \<or> (\<exists>h ip c a. evs = [AddHostnameIpCall h ip, SshCall c a]))"

definition new_instance :: "flags \<Rightarrow> string \<Rightarrow> string \<Rightarrow> (string \<times> string) list option
                              \<Rightarrow> Instance" where
  "new_instance F img imageProject md =
     \<lparr>inst_Name = imageToInstanceName F img, MachineType = machineType F, Status = [],
      NetworkInterfaces =
        [\<lparr>AccessConfigs =
            [\<lparr>ac_Type = ''ONE_TO_ONE_NAT'', ac_Name = ''External NAT'', ac_NatIP = []\<rparr>]\<rparr>],
      Disks = [\<lparr>AutoDelete = True, Boot = True, disk_Type = ''PERSISTENT'',
                SourceImage = sourceImage img imageProject\<rparr>],
      Metadata = md\<rparr>"

declare poll.simps [simp del] clientLoop.simps [simp del] receive.simps [simp del]

fun is_RunRemote :: "event \<Rightarrow> bool" where
  "is_RunRemote (RunRemoteCall p h d n u a) = True"
| "is_RunRemote _ = False"

fun is_Delete :: "event \<Rightarrow> bool" where
  "is_Delete (Delete p z n) = True"
| "is_Delete _ = False"

definition runs :: "event list \<Rightarrow> nat" where
  "runs tr = length (filter is_RunRemote tr)"

definition deletes :: "event list \<Rightarrow> nat" where
  "deletes tr = length (filter is_Delete tr)"


subsection \<open>The body of testImage before its deferred call\<close>

text \<open>
  \<open>before_deferred\<close> is \<open>testImage\<close> up to its \<open>return\<close>, without the deferred
  \<open>deleteInstance\<close>; \<open>keepF\<close> is the concrete flags with \<open>--delete-instances=false\<close>.
\<close>

definition before_deferred :: "'w env \<Rightarrow> flags \<Rightarrow> string \<Rightarrow> string \<Rightarrow> nat \<Rightarrow> 'w state
                                 \<Rightarrow> TestResult \<times> 'w state" where
  "before_deferred E F img imageProject junitFileNum s =
     (let (c, s1) = createInstance E F img imageProject s
      in case snd c of
           Some e \<Rightarrow> (\<lparr>tr_output = [], tr_err = Some (UnableToCreateInstance img e),
                       tr_host = [], tr_exitOk = False\<rparr>, s1)
         | None \<Rightarrow> testHost E F (fst c) (\<not> flag_deleteInstances F \<and> flag_cleanup F)
                     junitFileNum (flag_setupNode F) s1)"

definition keepF :: flags where
  "keepF = demoF\<lparr>flag_deleteInstances := False\<rparr>"

definition removes :: "event list \<Rightarrow> nat" where
  "removes tr = length (filter (\<lambda>e. case e of Remove p \<Rightarrow> True | _ \<Rightarrow> False) tr)"

subsection \<open>Reading a run of main\<close>

text \<open>
  \<open>targets\<close> is the number of goroutines \<open>main\<close> launches for images and hosts;
  \<open>produced\<close> is the list of results they send, in the order of the schedule;
  \<open>reports\<close> counts the result blocks printed by the receive loop. \<open>is_call\<close> holds
  of the events that stand for a call to a collaborator or a log line, as opposed to what
  \<open>main\<close> prints and to \<open>os.Remove\<close>.
\<close>

definition targets :: "flags \<Rightarrow> (string \<times> GCEImage) list \<Rightarrow> nat" where
  "targets F gceImages =
     length gceImages
     + (if flag_hosts F = [] then 0 else length (strings_Split (flag_hosts F) (CHR '','')))"

fun is_report :: "event \<Rightarrow> bool" where
  "is_report (PrintFailure h out e) = True"
| "is_report (PrintSuccess h out) = True"
| "is_report _ = False"

definition reports :: "event list \<Rightarrow> nat" where
  "reports tr = length (filter is_report tr)"

fun is_target :: "task \<Rightarrow> bool" where
  "is_target GetArchiveTask = False"
| "is_target _ = True"

definition produced :: "'w env \<Rightarrow> flags \<Rightarrow> (string \<times> GCEImage) list \<Rightarrow> nat list \<Rightarrow> 'w state
                          \<Rightarrow> TestResult list" where
  "produced E F gceImages sched s =
     (let (c, s1) = getComputeClient E s;
          (running, ts, s2) = launch F gceImages s1
      in fst (run_tasks E F (scheduled sched ts) s2))"

fun is_call :: "event \<Rightarrow> bool" where
  "is_call (Remove p) = False"
| "is_call (PrintInitImage n) = False"
| "is_call (PrintInitHost n) = False"
| "is_call PrintSeparator = False"
| "is_call (PrintFailure h out e) = False"
| "is_call (PrintSuccess h out) = False"
| "is_call (PrintErrCount n) = False"
| "is_call _ = True"

subsection \<open>A run with two fixed hosts; an archive whose construction failed\<close>

text \<open>
  \<open>twoHostsF\<close> is the concrete flags with \<open>--hosts=host1,failing-host\<close>.
  \<open>build_failed\<close> holds of an archive record whose construction has failed or has not
  run yet.
\<close>

definition twoHostsF :: flags where
  "twoHostsF = demoF\<lparr>flag_hosts := ''host1,failing-host''\<rparr>"

definition build_failed :: "Archive \<Rightarrow> bool" where
  "build_failed a = (if once_done a then arc_err a \<noteq> None else True)"

subsection \<open>What a target hands to RunRemote\<close>






section \<open>Properties\<close>

subsection \<open>The archive is built once\<close>

lemma getArchive_done:
  "once_done (arc s) \<Longrightarrow> getArchive E s = ((arc_path (arc s), arc_err (arc s)), s)"
  by (simp add: getArchive_def)

lemma getArchive_fresh:
  "\<not> once_done (arc s) \<Longrightarrow>
   getArchive E s =
     (fst (CreateTestArchive E (world s)),
      \<lparr>world = snd (CreateTestArchive E (world s)),
       trace = trace s @ [CreateTestArchiveCall],
       arc = \<lparr>once_done = True, arc_path = fst (fst (CreateTestArchive E (world s))),
              arc_err = snd (fst (CreateTestArchive E (world s)))\<rparr>\<rparr>)"
  by (simp add: getArchive_def emit_def Let_def split: prod.splits)

lemma getArchive_calls_done:
  "once_done (arc s) \<Longrightarrow> getArchive_calls E fs s = (rs, s') \<Longrightarrow>
   constructions (trace s') = constructions (trace s) \<and> arc s' = arc s
   \<and> rs = replicate (length fs) (arc_path (arc s), arc_err (arc s))"
proof (induction fs arbitrary: s rs s')
  case Nil
  then show ?case by simp
next
  case (Cons f fs)
  let ?s0 = "s\<lparr>world := f (world s)\<rparr>"
  from Cons.prems(1) have d: "once_done (arc ?s0)" by simp
  obtain rs1 s1 where c: "getArchive_calls E fs ?s0 = (rs1, s1)"
    by (cases "getArchive_calls E fs ?s0")
  from Cons.IH[OF d c] Cons.prems(2) c d show ?case
    by (simp add: getArchive_done)
qed

text \<open>
  C2. Starting with an archive that has not been built, any number \<open>N \<ge> 1\<close> of calls of
  \<open>getArchive\<close>, whatever else happens to the world between them, runs
  \<open>CreateTestArchive\<close> exactly once, and each of the \<open>N\<close> callers gets the (path,
  error) pair which that one construction produced.
\<close>

theorem getArchive_builds_once:
  assumes "\<not> once_done (arc s)" and "getArchive_calls E (f # fs) s = (rs, s')"
  shows "constructions (trace s') = constructions (trace s) + 1
       \<and> rs = replicate (Suc (length fs)) (fst (CreateTestArchive E (f (world s))))"
proof -
  let ?s0 = "s\<lparr>world := f (world s)\<rparr>"
  have n: "\<not> once_done (arc ?s0)" using assms(1) by simp
  obtain r s1 where g: "getArchive E ?s0 = (r, s1)" by (cases "getArchive E ?s0")
  obtain rs1 s2 where c: "getArchive_calls E fs s1 = (rs1, s2)"
    by (cases "getArchive_calls E fs s1")
  from g getArchive_fresh[OF n] have r: "r = fst (CreateTestArchive E (f (world s)))"
    and d: "once_done (arc s1)" and t: "trace s1 = trace s @ [CreateTestArchiveCall]"
    and a: "(arc_path (arc s1), arc_err (arc s1)) = r"
    by auto
  from getArchive_calls_done[OF d c] a have "constructions (trace s2) = constructions (trace s1)"
    and "rs1 = replicate (length fs) r" by simp_all
  with assms(2) g c r t show ?thesis by (simp add: constructions_def)
qed

theorem getArchive_builds_once_witness:
  "\<not> once_done (arc (init_state demo_w0)) \<and>
   fst (getArchive_calls (demoE always_running True True) [id, id, id] (init_state demo_w0))
     = [(''/tmp/e2e.tar.gz'', None), (''/tmp/e2e.tar.gz'', None), (''/tmp/e2e.tar.gz'', None)]
   \<and> constructions
       (trace (snd (getArchive_calls (demoE always_running True True) [id, id, id] (init_state demo_w0)))) = 1"
  using getArchive_builds_once[of "init_state demo_w0" "demoE always_running True True" id "[id, id]"
      "fst (getArchive_calls (demoE always_running True True) [id, id, id] (init_state demo_w0))"
      "snd (getArchive_calls (demoE always_running True True) [id, id, id] (init_state demo_w0))"]
  by (simp add: init_state_def demoE_def demo_w0_def constructions_def numeral_3_eq_3)

subsection \<open>The polling loop of createInstance\<close>

lemma world_emit [simp]: "world (emit e s) = world s"
  by (simp add: emit_def)

lemma trace_emit [simp]: "trace (emit e s) = trace s @ [e]"
  by (simp add: emit_def)

lemma arc_emit [simp]: "arc (emit e s) = arc s"
  by (simp add: emit_def)

lemma world_called [simp]: "world (called e w s) = w"
  by (simp add: called_def)

lemma trace_called [simp]: "trace (called e w s) = trace s @ [e]"
  by (simp add: called_def)

lemma arc_called [simp]: "arc (called e w s) = arc s"
  by (simp add: called_def)

lemma attempt_shape:
  "\<exists>evs. trace (snd (snd (attempt E F name i s)))
           = trace s @ (if i > 0 then [Sleep 20] else [])
               @ Get (flag_project F) (flag_zone F) name # evs
         \<and> attempt_events evs
         \<and> arc (snd (snd (attempt E F name i s))) = arc s
         \<and> (fst (attempt E F name i s) \<longrightarrow> evs \<noteq> [])"
proof -
  define s0 where "s0 = (if i > 0 then emit (Sleep 20) s else s)"
  have t0: "trace s0 = trace s @ (if i > 0 then [Sleep 20] else [])" and a0: "arc s0 = arc s"
    by (simp_all add: s0_def)
  obtain r w1 where g: "Instances_Get E (flag_project F) (flag_zone F) name (world s0) = (r, w1)"
    by (cases "Instances_Get E (flag_project F) (flag_zone F) name (world s0)")
  define s1 where "s1 = called (Get (flag_project F) (flag_zone F) name) w1 s0"
  show ?thesis
  proof (cases r)
    case (Inl e)
    then have "attempt E F name i s = (False, Some e, s1)"
      using g by (simp add: attempt_def s0_def[symmetric] s1_def)
    then show ?thesis by (simp add: s1_def t0 a0 attempt_events_def)
  next
    case (Inr inst)
    show ?thesis
    proof (cases "strings_ToUpper (Status inst) \<noteq> ''RUNNING''")
      case True
      then have "attempt E F name i s = (False, Some (NotRunning name (Status inst)), s1)"
        using g Inr by (simp add: attempt_def s0_def[symmetric] s1_def)
      then show ?thesis by (simp add: s1_def t0 a0 attempt_events_def)
    next
      case False
      with g Inr show ?thesis
        by (simp add: attempt_def s0_def[symmetric] Let_def t0 a0 attempt_events_def
                 split: prod.splits option.splits)
    qed
  qed
qed

lemma attempt_ready: "fst (attempt E F name i s) = ready E F name (world s)"
proof -
  define s0 where "s0 = (if i > 0 then emit (Sleep 20) s else s)"
  have w0: "world s0 = world s" by (simp add: s0_def)
  obtain r w1 where g: "Instances_Get E (flag_project F) (flag_zone F) name (world s) = (r, w1)"
    by (cases "Instances_Get E (flag_project F) (flag_zone F) name (world s)")
  show ?thesis
  proof (cases r)
    case (Inl e)
    with g show ?thesis by (simp add: attempt_def ready_def s0_def[symmetric] w0)
  next
    case (Inr inst)
    with g show ?thesis
      by (simp add: attempt_def ready_def s0_def[symmetric] w0 Let_def
               split: prod.splits option.splits)
  qed
qed

lemma attempt_err: "fst (snd (attempt E F name i s)) = None \<longleftrightarrow> fst (attempt E F name i s)"
proof -
  define s0 where "s0 = (if i > 0 then emit (Sleep 20) s else s)"
  obtain r w1 where g: "Instances_Get E (flag_project F) (flag_zone F) name (world s0) = (r, w1)"
    by (cases "Instances_Get E (flag_project F) (flag_zone F) name (world s0)")
  show ?thesis
  proof (cases r)
    case (Inl e)
    with g show ?thesis by (simp add: attempt_def s0_def[symmetric])
  next
    case (Inr inst)
    with g show ?thesis
      by (simp add: attempt_def s0_def[symmetric] Let_def split: prod.splits option.splits)
  qed
qed


lemma attempt_gets: "gets (trace (snd (snd (attempt E F name i s)))) = Suc (gets (trace s))"
  using attempt_shape[of E F name i s] by (auto simp: gets_def attempt_events_def)

lemma attempt_sshs:
  "sshs (trace s) \<le> sshs (trace (snd (snd (attempt E F name i s))))
   \<and> sshs (trace (snd (snd (attempt E F name i s)))) \<le> Suc (sshs (trace s))
   \<and> (fst (attempt E F name i s) \<longrightarrow>
        sshs (trace (snd (snd (attempt E F name i s)))) = Suc (sshs (trace s)))"
  using attempt_shape[of E F name i s] by (auto simp: sshs_def attempt_events_def)

lemma attempt_slept:
  "slept (trace (snd (snd (attempt E F name i s)))) = slept (trace s) + (if i > 0 then 20 else 0)"
  using attempt_shape[of E F name i s] by (auto simp: slept_def attempt_events_def)

lemma attempt_arc: "arc (snd (snd (attempt E F name i s))) = arc s"
  using attempt_shape[of E F name i s] by auto

lemma attempt_filter:
  assumes "\<not> P (Sleep 20)" and "\<And>p z n. \<not> P (Get p z n)"
    and "\<And>h ip. \<not> P (AddHostnameIpCall h ip)" and "\<And>c a. \<not> P (SshCall c a)"
  shows "filter P (trace (snd (snd (attempt E F name i s)))) = filter P (trace s)"
  using attempt_shape[of E F name i s] assms by (auto simp: attempt_events_def)

lemma poll_step:
  "i < 30 \<Longrightarrow> \<not> r \<Longrightarrow>
   poll E F name i r e s =
     poll E F name (Suc i) (fst (attempt E F name i s)) (fst (snd (attempt E F name i s)))
       (snd (snd (attempt E F name i s)))"
  by (simp add: poll.simps[of E F name i] split: prod.splits)

lemma poll_stop: "\<not> (i < 30 \<and> \<not> r) \<Longrightarrow> poll E F name i r e s = (e, s)"
  by (subst poll.simps) auto

lemma poll_arc: "arc (snd (poll E F name i r e s)) = arc s"
proof (induction E F name i r e s rule: poll.induct)
  case (1 E F name i r e s)
  show ?case
  proof (cases "i < 30 \<and> \<not> r")
    case True
    then show ?thesis
      using "1.IH"[OF True prod.collapse prod.collapse] by (simp add: poll_step attempt_arc)
  next
    case False
    then show ?thesis by (simp add: poll_stop)
  qed
qed

lemma poll_filter:
  assumes "\<not> P (Sleep 20)" and "\<And>p z n. \<not> P (Get p z n)"
    and "\<And>h ip. \<not> P (AddHostnameIpCall h ip)" and "\<And>c a. \<not> P (SshCall c a)"
  shows "filter P (trace (snd (poll E F name i r e s))) = filter P (trace s)"
proof (induction E F name i r e s rule: poll.induct)
  case (1 E F name i r e s)
  show ?case
  proof (cases "i < 30 \<and> \<not> r")
    case True
    then show ?thesis
      using "1.IH"[OF True prod.collapse prod.collapse] attempt_filter[of P E F name i s] assms
      by (simp add: poll_step)
  next
    case False
    then show ?thesis by (simp add: poll_stop)
  qed
qed

lemma poll_counts:
  "i \<le> 30 \<Longrightarrow>
   gets (trace s) \<le> gets (trace (snd (poll E F name i r e s)))
   \<and> gets (trace (snd (poll E F name i r e s))) \<le> gets (trace s) + (30 - i)
   \<and> sshs (trace s) \<le> sshs (trace (snd (poll E F name i r e s)))
   \<and> sshs (trace (snd (poll E F name i r e s))) + gets (trace s)
       \<le> sshs (trace s) + gets (trace (snd (poll E F name i r e s)))
   \<and> slept (trace (snd (poll E F name i r e s)))
         + (if i = 0 \<and> gets (trace s) < gets (trace (snd (poll E F name i r e s))) then 20 else 0)
       = slept (trace s)
         + 20 * (gets (trace (snd (poll E F name i r e s))) - gets (trace s))"
proof (induction E F name i r e s rule: poll.induct)
  case (1 E F name i r e s)
  show ?case
  proof (cases "i < 30 \<and> \<not> r")
    case True
    define s1 where "s1 = snd (snd (attempt E F name i s))"
    define s' where "s' = snd (poll E F name i r e s)"
    have p: "s' = snd (poll E F name (Suc i) (fst (attempt E F name i s))
                        (fst (snd (attempt E F name i s))) s1)"
      using True by (simp add: s'_def s1_def poll_step)
    have g1: "gets (trace s1) = Suc (gets (trace s))" by (simp add: s1_def attempt_gets)
    have h1: "sshs (trace s) \<le> sshs (trace s1)" "sshs (trace s1) \<le> Suc (sshs (trace s))"
      using attempt_sshs[of s E F name i] by (simp_all add: s1_def)
    have t1: "slept (trace s1) = slept (trace s) + (if i > 0 then 20 else 0)"
      by (simp add: s1_def attempt_slept)
    have ih: "gets (trace s1) \<le> gets (trace s')"
      "gets (trace s') \<le> gets (trace s1) + (30 - Suc i)"
      "sshs (trace s1) \<le> sshs (trace s')"
      "sshs (trace s') + gets (trace s1) \<le> sshs (trace s1) + gets (trace s')"
      "slept (trace s') = slept (trace s1) + 20 * (gets (trace s') - gets (trace s1))"
      using "1.IH"[OF True prod.collapse prod.collapse] True by (simp_all add: p s1_def)
    have a: "gets (trace s) \<le> gets (trace s')" using g1 ih(1) by arith
    have b: "gets (trace s') \<le> gets (trace s) + (30 - i)" using g1 ih(2) True by arith
    have c: "sshs (trace s) \<le> sshs (trace s')" using h1 ih(3) by arith
    have d: "sshs (trace s') + gets (trace s) \<le> sshs (trace s) + gets (trace s')"
      using g1 h1 ih(4) by arith
    have lt: "gets (trace s) < gets (trace s')" using g1 ih(1) by arith
    have "20 * (gets (trace s') - gets (trace s)) = 20 * (gets (trace s') - gets (trace s1)) + 20"
      using g1 ih(1) by arith
    then have f: "slept (trace s') + (if i = 0 \<and> gets (trace s) < gets (trace s') then 20 else 0)
          = slept (trace s) + 20 * (gets (trace s') - gets (trace s))"
      using t1 ih(5) lt by (cases "i = 0") simp_all
    from a b c d f show ?thesis unfolding s'_def by blast
  next
    case False
    then show ?thesis by (simp add: poll_stop)
  qed
qed

lemma poll_exhaust:
  "i \<le> 30 \<Longrightarrow> \<not> r \<Longrightarrow> fst (poll E F name i r e s) \<noteq> None \<Longrightarrow>
   gets (trace (snd (poll E F name i r e s))) = gets (trace s) + (30 - i)"
proof (induction E F name i r e s rule: poll.induct)
  case (1 E F name i r e s)
  show ?case
  proof (cases "i < 30 \<and> \<not> r")
    case True
    define r1 where "r1 = fst (attempt E F name i s)"
    define e1 where "e1 = fst (snd (attempt E F name i s))"
    define s1 where "s1 = snd (snd (attempt E F name i s))"
    have p: "poll E F name i r e s = poll E F name (Suc i) r1 e1 s1"
      using True by (simp add: poll_step r1_def e1_def s1_def)
    have g1: "gets (trace s1) = Suc (gets (trace s))" by (simp add: s1_def attempt_gets)
    show ?thesis
    proof (cases r1)
      case True
      then have "e1 = None" using attempt_err[of E F name i s] by (simp add: r1_def e1_def)
      with True p "1.prems"(3) show ?thesis by (simp add: poll_stop)
    next
      case False
      have "gets (trace (snd (poll E F name (Suc i) r1 e1 s1))) = gets (trace s1) + (30 - Suc i)"
        using "1.IH"[OF \<open>i < 30 \<and> \<not> r\<close> prod.collapse prod.collapse] False "1.prems"(3) p
          \<open>i < 30 \<and> \<not> r\<close>
        by (simp add: r1_def e1_def s1_def)
      moreover have "gets (trace s1) + (30 - Suc i) = gets (trace s) + (30 - i)"
        using g1 \<open>i < 30 \<and> \<not> r\<close> by arith
      ultimately show ?thesis using p by simp
    qed
  next
    case False
    with "1.prems" show ?thesis by (simp add: poll_stop)
  qed
qed

lemma poll_never_ready:
  "\<forall>w. \<not> ready E F name w \<Longrightarrow> \<not> r \<Longrightarrow> i < 30 \<or> e \<noteq> None \<Longrightarrow>
   fst (poll E F name i r e s) \<noteq> None"
proof (induction E F name i r e s rule: poll.induct)
  case (1 E F name i r e s)
  show ?case
  proof (cases "i < 30 \<and> \<not> r")
    case True
    obtain r1 e1 s1 where a: "attempt E F name i s = (r1, e1, s1)"
      by (cases "attempt E F name i s")
    have r1: "\<not> r1" using "1.prems"(1) attempt_ready[of E F name i s] a by simp
    then have e1: "e1 \<noteq> None" using attempt_err[of E F name i s] a by simp
    have "fst (poll E F name (Suc i) r1 e1 s1) \<noteq> None"
      using "1.IH"[OF True a[symmetric] refl refl "1.prems"(1) r1] e1 by simp
    then show ?thesis using True a by (simp add: poll_step)
  next
    case False
    with "1.prems" show ?thesis by (simp add: poll_stop)
  qed
qed

lemma parseItems_frame:
  "world (snd (parseItems E ss m s)) = world s \<and> arc (snd (parseItems E ss m s)) = arc s
   \<and> slept (trace (snd (parseItems E ss m s))) = slept (trace s)
   \<and> ((\<forall>msg. \<not> P (Log msg)) \<longrightarrow>
        filter P (trace (snd (parseItems E ss m s))) = filter P (trace s))"
  by (induction ss arbitrary: m s) (simp_all add: slept_def split: list.splits sum.splits)

lemma parseItems_extends: "\<exists>evs. trace (snd (parseItems E ss m s)) = trace s @ evs"
proof (induction ss arbitrary: m s)
  case Nil
  then show ?case by simp
next
  case (Cons x ss)
  have a: "\<exists>evs. trace (snd (parseItems E ss m' (emit e s))) = trace s @ evs" for m' e
  proof -
    from Cons.IH[of m' "emit e s"]
    obtain evs where "trace (snd (parseItems E ss m' (emit e s))) = trace (emit e s) @ evs"
      by blast
    then show ?thesis by simp
  qed
  have b: "\<exists>evs. trace (snd (parseItems E ss m' s)) = trace s @ evs" for m'
    by (rule Cons.IH)
  show ?case using a b by (simp split: list.splits sum.splits)
qed

lemma createInstance_shape:
  "\<exists>i s1. world s1 = snd (Instances_Insert E (flag_project F) (flag_zone F) i (world s))
     \<and> arc s1 = arc s \<and> slept (trace s1) = slept (trace s)
     \<and> (\<exists>evs. trace s1 = trace s @ evs)
     \<and> (\<forall>P. (\<forall>m. \<not> P (Log m)) \<and> (\<forall>p z n. \<not> P (Insert p z n))
              \<longrightarrow> filter P (trace s1) = filter P (trace s))
     \<and> createInstance E F img proj s =
         (case fst (Instances_Insert E (flag_project F) (flag_zone F) i (world s)) of
            Inl e \<Rightarrow> (([], Some e), s1)
          | Inr (Some op_Error) \<Rightarrow>
              (([], Some (CouldNotCreate (imageToInstanceName F img) op_Error)), s1)
          | Inr None \<Rightarrow>
              ((imageToInstanceName F img,
                fst (poll E F (imageToInstanceName F img) 0 False None s1)),
               snd (poll E F (imageToInstanceName F img) 0 False None s1)))"
proof (cases "flag_instanceMetadata F = []")
  case True
  let ?i = "new_instance F img proj None"
  let ?s1 = "called (Insert (flag_project F) (flag_zone F) (imageToInstanceName F img))
               (snd (Instances_Insert E (flag_project F) (flag_zone F) ?i (world s))) s"
  have "createInstance E F img proj s =
         (case fst (Instances_Insert E (flag_project F) (flag_zone F) ?i (world s)) of
            Inl e \<Rightarrow> (([], Some e), ?s1)
          | Inr (Some op_Error) \<Rightarrow>
              (([], Some (CouldNotCreate (imageToInstanceName F img) op_Error)), ?s1)
          | Inr None \<Rightarrow>
              ((imageToInstanceName F img,
                fst (poll E F (imageToInstanceName F img) 0 False None ?s1)),
               snd (poll E F (imageToInstanceName F img) 0 False None ?s1)))"
    using True
    by (simp add: createInstance_def new_instance_def Let_def
             split: prod.splits sum.splits option.splits)
  moreover have "world ?s1 = snd (Instances_Insert E (flag_project F) (flag_zone F) ?i (world s))"
    "arc ?s1 = arc s" "slept (trace ?s1) = slept (trace s)"
    "\<forall>P. (\<forall>m. \<not> P (Log m)) \<and> (\<forall>p z n. \<not> P (Insert p z n))
              \<longrightarrow> filter P (trace ?s1) = filter P (trace s)"
    "\<exists>evs. trace ?s1 = trace s @ evs"
    by (simp_all add: slept_def)
  ultimately show ?thesis by blast
next
  case False
  obtain raw s0 where pm: "parseInstanceMetadata E (flag_instanceMetadata F) s = (raw, s0)"
    by (cases "parseInstanceMetadata E (flag_instanceMetadata F) s")
  have s0: "world s0 = world s" "arc s0 = arc s" "slept (trace s0) = slept (trace s)"
    "\<And>P. (\<forall>msg. \<not> P (Log msg)) \<Longrightarrow> filter P (trace s0) = filter P (trace s)"
    using pm parseItems_frame[of E "strings_Split (flag_instanceMetadata F) (CHR '','')" "[]" s]
    by (simp_all add: parseInstanceMetadata_def)
  have x0: "\<exists>evs. trace s0 = trace s @ evs"
    using pm parseItems_extends[of E "strings_Split (flag_instanceMetadata F) (CHR '','')" "[]" s]
    by (simp add: parseInstanceMetadata_def)
  let ?i = "new_instance F img proj (Some raw)"
  let ?s1 = "called (Insert (flag_project F) (flag_zone F) (imageToInstanceName F img))
               (snd (Instances_Insert E (flag_project F) (flag_zone F) ?i (world s))) s0"
  have "createInstance E F img proj s =
         (case fst (Instances_Insert E (flag_project F) (flag_zone F) ?i (world s)) of
            Inl e \<Rightarrow> (([], Some e), ?s1)
          | Inr (Some op_Error) \<Rightarrow>
              (([], Some (CouldNotCreate (imageToInstanceName F img) op_Error)), ?s1)
          | Inr None \<Rightarrow>
              ((imageToInstanceName F img,
                fst (poll E F (imageToInstanceName F img) 0 False None ?s1)),
               snd (poll E F (imageToInstanceName F img) 0 False None ?s1)))"
    using False pm s0(1)
    by (simp add: createInstance_def new_instance_def Let_def
             split: prod.splits sum.splits option.splits)
  moreover have "world ?s1 = snd (Instances_Insert E (flag_project F) (flag_zone F) ?i (world s))"
    "arc ?s1 = arc s" "slept (trace ?s1) = slept (trace s)"
    "\<forall>P. (\<forall>m. \<not> P (Log m)) \<and> (\<forall>p z n. \<not> P (Insert p z n))
              \<longrightarrow> filter P (trace ?s1) = filter P (trace s)"
    "\<exists>evs. trace ?s1 = trace s @ evs"
    using s0 x0 by (auto simp: slept_def)
  ultimately show ?thesis by blast
qed

subsection \<open>createInstance, deleteInstance and testHost as a whole\<close>

lemma createInstance_cases [case_names failed polled]:
  obtains
    (failed) i e s1 where "createInstance E F img proj s = (([], Some e), s1)"
      and "fst (Instances_Insert E (flag_project F) (flag_zone F) i (world s)) \<noteq> Inr None"
      and "arc s1 = arc s" and "slept (trace s1) = slept (trace s)"
      and "\<And>P. (\<forall>m. \<not> P (Log m)) \<Longrightarrow> (\<forall>p z n. \<not> P (Insert p z n))
              \<Longrightarrow> filter P (trace s1) = filter P (trace s)"
      and "\<exists>evs. trace s1 = trace s @ evs"
  | (polled) i s1 where "createInstance E F img proj s =
           ((imageToInstanceName F img,
             fst (poll E F (imageToInstanceName F img) 0 False None s1)),
            snd (poll E F (imageToInstanceName F img) 0 False None s1))"
      and "fst (Instances_Insert E (flag_project F) (flag_zone F) i (world s)) = Inr None"
      and "world s1 = snd (Instances_Insert E (flag_project F) (flag_zone F) i (world s))"
      and "arc s1 = arc s" and "slept (trace s1) = slept (trace s)"
      and "\<And>P. (\<forall>m. \<not> P (Log m)) \<Longrightarrow> (\<forall>p z n. \<not> P (Insert p z n))
              \<Longrightarrow> filter P (trace s1) = filter P (trace s)"
      and "\<exists>evs. trace s1 = trace s @ evs"
proof -
  obtain i s1 where w: "world s1 = snd (Instances_Insert E (flag_project F) (flag_zone F) i (world s))"
    and a: "arc s1 = arc s" and sl: "slept (trace s1) = slept (trace s)"
    and ex: "\<exists>evs. trace s1 = trace s @ evs"
    and fl: "\<forall>P. (\<forall>m. \<not> P (Log m)) \<and> (\<forall>p z n. \<not> P (Insert p z n))
              \<longrightarrow> filter P (trace s1) = filter P (trace s)"
    and c: "createInstance E F img proj s =
         (case fst (Instances_Insert E (flag_project F) (flag_zone F) i (world s)) of
            Inl e \<Rightarrow> (([], Some e), s1)
          | Inr (Some op_Error) \<Rightarrow>
              (([], Some (CouldNotCreate (imageToInstanceName F img) op_Error)), s1)
          | Inr None \<Rightarrow>
              ((imageToInstanceName F img,
                fst (poll E F (imageToInstanceName F img) 0 False None s1)),
               snd (poll E F (imageToInstanceName F img) 0 False None s1)))"
    using createInstance_shape[of E F s img proj] by blast
  have fl': "\<And>P. (\<forall>m. \<not> P (Log m)) \<Longrightarrow> (\<forall>p z n. \<not> P (Insert p z n))
              \<Longrightarrow> filter P (trace s1) = filter P (trace s)"
    using fl by blast
  show thesis
  proof (cases "fst (Instances_Insert E (flag_project F) (flag_zone F) i (world s))")
    case (Inl e)
    then show thesis using c a sl fl' ex failed[of e s1 i] by simp
  next
    case (Inr oe)
    show thesis
    proof (cases oe)
      case None
      then show thesis using Inr c w a sl fl' ex polled[of s1 i] by simp
    next
      case (Some op_Error)
      then show thesis
        using Inr c a sl fl' ex failed[of "CouldNotCreate (imageToInstanceName F img) op_Error" s1 i]
        by simp
    qed
  qed
qed

lemma createInstance_filter:
  assumes "\<And>m. \<not> P (Log m)" and "\<And>p z n. \<not> P (Insert p z n)"
    and "\<not> P (Sleep 20)" and "\<And>p z n. \<not> P (Get p z n)"
    and "\<And>h ip. \<not> P (AddHostnameIpCall h ip)" and "\<And>c a. \<not> P (SshCall c a)"
  shows "filter P (trace (snd (createInstance E F img proj s))) = filter P (trace s)"
proof (cases rule: createInstance_cases[of E F img proj s])
  case (failed i e s1)
  then show ?thesis using assms(1,2) by simp
next
  case (polled i s1)
  then show ?thesis
    using assms poll_filter[of P E F "imageToInstanceName F img" 0 False None s1] by simp
qed

lemma createInstance_arc: "arc (snd (createInstance E F img proj s)) = arc s"
  by (cases rule: createInstance_cases[of E F img proj s]) (simp_all add: poll_arc)

lemma createInstance_counts:
  "gets (trace s) \<le> gets (trace (snd (createInstance E F img proj s)))
   \<and> gets (trace (snd (createInstance E F img proj s))) \<le> gets (trace s) + 30
   \<and> sshs (trace s) \<le> sshs (trace (snd (createInstance E F img proj s)))
   \<and> sshs (trace (snd (createInstance E F img proj s))) + gets (trace s)
       \<le> sshs (trace s) + gets (trace (snd (createInstance E F img proj s)))
   \<and> slept (trace (snd (createInstance E F img proj s)))
         + (if gets (trace s) < gets (trace (snd (createInstance E F img proj s))) then 20 else 0)
       = slept (trace s)
         + 20 * (gets (trace (snd (createInstance E F img proj s))) - gets (trace s))"
proof (cases rule: createInstance_cases[of E F img proj s])
  case (failed i e s1)
  have "gets (trace s1) = gets (trace s)" "sshs (trace s1) = sshs (trace s)"
    using failed(5) by (simp_all add: gets_def sshs_def)
  then show ?thesis using failed by simp
next
  case (polled i s1)
  have "gets (trace s1) = gets (trace s)" "sshs (trace s1) = sshs (trace s)"
    using polled(6) by (simp_all add: gets_def sshs_def)
  then show ?thesis
    using polled poll_counts[of 0 s1 E F "imageToInstanceName F img" False None] by simp
qed

lemma createInstance_result:
  "(snd (fst (createInstance E F img proj s)) \<noteq> None \<longrightarrow>
      gets (trace (snd (createInstance E F img proj s))) = gets (trace s)
      \<or> gets (trace (snd (createInstance E F img proj s))) = gets (trace s) + 30)
   \<and> ((\<forall>i. fst (Instances_Insert E (flag_project F) (flag_zone F) i (world s)) = Inr None) \<longrightarrow>
        gets (trace s) < gets (trace (snd (createInstance E F img proj s)))
        \<and> fst (fst (createInstance E F img proj s)) = imageToInstanceName F img)
   \<and> ((\<forall>w. \<not> ready E F (imageToInstanceName F img) w) \<longrightarrow>
        snd (fst (createInstance E F img proj s)) \<noteq> None)"
proof (cases rule: createInstance_cases[of E F img proj s])
  case (failed i e s1)
  have "gets (trace s1) = gets (trace s)" using failed(5) by (simp add: gets_def)
  then show ?thesis using failed by auto
next
  case (polled i s1)
  let ?n = "imageToInstanceName F img"
  have g: "gets (trace s1) = gets (trace s)" using polled(6) by (simp add: gets_def)
  have a: "fst (poll E F ?n 0 False None s1) \<noteq> None \<longrightarrow>
           gets (trace (snd (poll E F ?n 0 False None s1))) = gets (trace s) + 30"
    using poll_exhaust[of 0 False E F ?n None s1] g by simp
  have b: "gets (trace s) < gets (trace (snd (poll E F ?n 0 False None s1)))"
    using poll_step[of 0 False E F ?n None s1]
      poll_counts[of 1 "snd (snd (attempt E F ?n 0 s1))" E F ?n "fst (attempt E F ?n 0 s1)"
                     "fst (snd (attempt E F ?n 0 s1))"]
      attempt_gets[of E F ?n 0 s1] g
    by simp
  have d: "(\<forall>w. \<not> ready E F ?n w) \<longrightarrow> fst (poll E F ?n 0 False None s1) \<noteq> None"
    using poll_never_ready[of E F ?n False 0 None s1] by simp
  from a b d show ?thesis by (simp add: polled(1))
qed

lemma deleteInstance_shape:
  "\<exists>logs. trace (deleteInstance E F img s)
            = trace s @ Delete (flag_project F) (flag_zone F) (imageToInstanceName F img) # logs
     \<and> (logs = [] \<or> (\<exists>m. logs = [Log m]))
     \<and> arc (deleteInstance E F img s) = arc s
     \<and> world (deleteInstance E F img s)
         = snd (Instances_Delete E (flag_project F) (flag_zone F) (imageToInstanceName F img)
                  (world s))"
  by (simp add: deleteInstance_def Let_def split: prod.splits option.splits)

lemma testHost_cases [case_names lookup_failed not_running archive_failed ran]:
  obtains
    (lookup_failed) e w1 where
      "Instances_Get E (flag_project F) (flag_zone F) h (world s) = (Inl e, w1)"
      and "testHost E F h df n sn s =
             (\<lparr>tr_output = [], tr_err = Some e, tr_host = h, tr_exitOk = False\<rparr>,
              called (Get (flag_project F) (flag_zone F) h) w1 s)"
  | (not_running) inst w1 where
      "Instances_Get E (flag_project F) (flag_zone F) h (world s) = (Inr inst, w1)"
      and "strings_ToUpper (Status inst) \<noteq> ''RUNNING''"
      and "testHost E F h df n sn s =
             (\<lparr>tr_output = [], tr_err = Some (NotRunning h (Status inst)), tr_host = h,
               tr_exitOk = False\<rparr>,
              called (Get (flag_project F) (flag_zone F) h) w1 s)"
  | (archive_failed) inst w1 s2 a e s3 where
      "Instances_Get E (flag_project F) (flag_zone F) h (world s) = (Inr inst, w1)"
      and "strings_ToUpper (Status inst) = ''RUNNING''"
      and "trace s2 = trace s @ Get (flag_project F) (flag_zone F) h
                        # (if getExternalIp inst \<noteq> []
                           then [AddHostnameIpCall h (getExternalIp inst)] else [])"
      and "arc s2 = arc s"
      and "getArchive E s2 = ((a, Some e), s3)"
      and "testHost E F h df n sn s =
             (\<lparr>tr_output = [], tr_err = Some (UnableToCreateArchive e), tr_host = [],
               tr_exitOk = False\<rparr>, s3)"
  | (ran) inst w1 s2 a s3 res w4 where
      "Instances_Get E (flag_project F) (flag_zone F) h (world s) = (Inr inst, w1)"
      and "strings_ToUpper (Status inst) = ''RUNNING''"
      and "trace s2 = trace s @ Get (flag_project F) (flag_zone F) h
                        # (if getExternalIp inst \<noteq> []
                           then [AddHostnameIpCall h (getExternalIp inst)] else [])"
      and "arc s2 = arc s"
      and "getArchive E s2 = ((a, None), s3)"
      and "RunRemote E a h df n sn (flag_testArgs F) (world s3) = (res, w4)"
      and "testHost E F h df n sn s =
             (\<lparr>tr_output = fst res, tr_err = snd (snd res), tr_host = h,
               tr_exitOk = fst (snd res)\<rparr>,
              called (RunRemoteCall a h df n sn (flag_testArgs F)) w4 s3)"
proof -
  obtain r w1 where g: "Instances_Get E (flag_project F) (flag_zone F) h (world s) = (r, w1)"
    by (cases "Instances_Get E (flag_project F) (flag_zone F) h (world s)")
  define s1 where "s1 = called (Get (flag_project F) (flag_zone F) h) w1 s"
  show thesis
  proof (cases r)
    case (Inl e)
    then show thesis using g lookup_failed[of e w1] by (simp add: testHost_def)
  next
    case (Inr inst)
    show thesis
    proof (cases "strings_ToUpper (Status inst) \<noteq> ''RUNNING''")
      case True
      then show thesis using g Inr not_running[of inst w1] by (simp add: testHost_def)
    next
      case False
      define s2 where "s2 = (if length (getExternalIp inst) > 0
                          then called (AddHostnameIpCall h (getExternalIp inst))
                                 (AddHostnameIp E h (getExternalIp inst) (world s1)) s1
                          else s1)"
      have t2: "trace s2 = trace s @ Get (flag_project F) (flag_zone F) h
                        # (if getExternalIp inst \<noteq> []
                           then [AddHostnameIpCall h (getExternalIp inst)] else [])"
        and a2: "arc s2 = arc s"
        by (simp_all add: s2_def s1_def)
      obtain a ae s3 where ga: "getArchive E s2 = ((a, ae), s3)"
        by (cases "getArchive E s2") auto
      obtain res w4 where rr: "RunRemote E a h df n sn (flag_testArgs F) (world s3) = (res, w4)"
        by (cases "RunRemote E a h df n sn (flag_testArgs F) (world s3)")
      have th: "testHost E F h df n sn s =
           (case ae of
              Some e \<Rightarrow> (\<lparr>tr_output = [], tr_err = Some (UnableToCreateArchive e),
                          tr_host = [], tr_exitOk = False\<rparr>, s3)
            | None \<Rightarrow> (\<lparr>tr_output = fst res, tr_err = snd (snd res), tr_host = h,
                         tr_exitOk = fst (snd res)\<rparr>,
                        called (RunRemoteCall a h df n sn (flag_testArgs F)) w4 s3))"
      proof (cases "getExternalIp inst = []")
        case True
        with g Inr False ga rr show ?thesis
          by (simp add: testHost_def Let_def s2_def s1_def split: option.splits)
      next
        case ne: False
        with g Inr False ga rr show ?thesis
          by (simp add: testHost_def Let_def s2_def s1_def split: option.splits)
      qed
      show thesis
      proof (cases ae)
        case None
        then show thesis using ran[of inst w1 s2 a s3 res w4] g Inr False t2 a2 ga rr th by simp
      next
        case (Some e)
        then show thesis
          using archive_failed[of inst w1 s2 a e s3] g Inr False t2 a2 ga th by simp
      qed
    qed
  qed
qed

lemma testImage_failed:
  assumes "snd (fst (createInstance E F img proj s)) = Some e"
  shows "fst (testImage E F img proj n s)
           = \<lparr>tr_output = [], tr_err = Some (UnableToCreateInstance img e), tr_host = [],
              tr_exitOk = False\<rparr>"
    and "snd (testImage E F img proj n s)
           = (if flag_deleteInstances F
              then deleteInstance E F img (snd (createInstance E F img proj s))
              else snd (createInstance E F img proj s))"
proof -
  obtain nm s1 where c: "createInstance E F img proj s = ((nm, Some e), s1)"
    using assms by (cases "createInstance E F img proj s") auto
  show "fst (testImage E F img proj n s)
           = \<lparr>tr_output = [], tr_err = Some (UnableToCreateInstance img e), tr_host = [],
              tr_exitOk = False\<rparr>"
    by (simp add: testImage_def c)
  show "snd (testImage E F img proj n s)
           = (if flag_deleteInstances F
              then deleteInstance E F img (snd (createInstance E F img proj s))
              else snd (createInstance E F img proj s))"
    by (simp add: testImage_def c)
qed

lemma deleteInstance_runs: "runs (trace (deleteInstance E F img s)) = runs (trace s)"
  using deleteInstance_shape[of E F img s] by (auto simp: runs_def)

lemma createInstance_runs: "runs (trace (snd (createInstance E F img proj s))) = runs (trace s)"
  using createInstance_filter[of is_RunRemote E F img proj s] by (simp add: runs_def)

text \<open>
  C3. \<open>createInstance\<close> polls at most 30 times, and sleeps 20 seconds before every
  poll but the first. A poll that fails or reports another status than RUNNING, and a probe
  that fails, do not end the loop: when \<open>createInstance\<close> returns an error it has polled
  either not at all (the insert request was refused) or exactly 30 times. If the instance
  is never seen running and verified, the error is not \<open>nil\<close>. Such an error ends
  only this target: \<open>testImage\<close> returns it in an ordinary \<open>TestResult\<close> with
  \<open>exitOk\<close> false, and no remote run is attempted.
\<close>

theorem createInstance_polling_bounded:
  assumes "createInstance E F img proj s = ((name, err), s')"
  shows "gets (trace s') \<le> gets (trace s) + 30
       \<and> (gets (trace s) < gets (trace s') \<longrightarrow>
            slept (trace s') + 20 = slept (trace s) + 20 * (gets (trace s') - gets (trace s)))
       \<and> (err \<noteq> None \<longrightarrow>
            gets (trace s') = gets (trace s) \<or> gets (trace s') = gets (trace s) + 30)
       \<and> ((\<forall>i. fst (Instances_Insert E (flag_project F) (flag_zone F) i (world s)) = Inr None)
            \<longrightarrow> gets (trace s) < gets (trace s'))
       \<and> ((\<forall>w. \<not> ready E F (imageToInstanceName F img) w) \<longrightarrow> err \<noteq> None)
       \<and> (\<forall>e. err = Some e \<longrightarrow>
             fst (testImage E F img proj n s)
               = \<lparr>tr_output = [], tr_err = Some (UnableToCreateInstance img e), tr_host = [],
                  tr_exitOk = False\<rparr>
             \<and> runs (trace (snd (testImage E F img proj n s))) = runs (trace s))"
proof -
  have c: "gets (trace s') \<le> gets (trace s) + 30"
    "slept (trace s') + (if gets (trace s) < gets (trace s') then 20 else 0)
       = slept (trace s) + 20 * (gets (trace s') - gets (trace s))"
    using createInstance_counts[of s E F img proj] assms by simp_all
  have r: "err \<noteq> None \<longrightarrow>
            gets (trace s') = gets (trace s) \<or> gets (trace s') = gets (trace s) + 30"
    "(\<forall>i. fst (Instances_Insert E (flag_project F) (flag_zone F) i (world s)) = Inr None)
            \<longrightarrow> gets (trace s) < gets (trace s')"
    "(\<forall>w. \<not> ready E F (imageToInstanceName F img) w) \<longrightarrow> err \<noteq> None"
    using createInstance_result[of E F img proj s] assms by simp_all
  have t: "\<forall>e. err = Some e \<longrightarrow>
             fst (testImage E F img proj n s)
               = \<lparr>tr_output = [], tr_err = Some (UnableToCreateInstance img e), tr_host = [],
                  tr_exitOk = False\<rparr>
             \<and> runs (trace (snd (testImage E F img proj n s))) = runs (trace s)"
  proof (intro allI impI)
    fix e assume "err = Some e"
    then have f: "snd (fst (createInstance E F img proj s)) = Some e" using assms by simp
    show "fst (testImage E F img proj n s)
               = \<lparr>tr_output = [], tr_err = Some (UnableToCreateInstance img e), tr_host = [],
                  tr_exitOk = False\<rparr>
             \<and> runs (trace (snd (testImage E F img proj n s))) = runs (trace s)"
      using testImage_failed[OF f, of n] by (simp add: deleteInstance_runs createInstance_runs)
  qed
  have c2: "gets (trace s) < gets (trace s') \<longrightarrow>
            slept (trace s') + 20 = slept (trace s) + 20 * (gets (trace s') - gets (trace s))"
    using c(2) by (auto split: if_splits)
  from c(1) c2 r t show ?thesis by blast
qed

lemma toUpper_STAGING: "strings_ToUpper ''STAGING'' \<noteq> ''RUNNING''"
  by (simp add: strings_ToUpper_def toUpper_char_def)

lemma toUpper_RUNNING: "strings_ToUpper ''RUNNING'' = ''RUNNING''"
  by (simp add: strings_ToUpper_def toUpper_char_def)


lemma never_ready_demo: "\<not> ready (demoE never_running b x) F name w"
  by (simp add: ready_def demoE_def never_running_def toUpper_STAGING)

theorem createInstance_polling_bounded_witness:
  "(\<forall>w. \<not> ready (demoE never_running True True) demoF (imageToInstanceName demoF ''img'') w)
   \<and> snd (fst (createInstance (demoE never_running True True) demoF ''img'' ''proj''
                 (init_state demo_w0))) \<noteq> None
   \<and> gets (trace (snd (createInstance (demoE never_running True True) demoF ''img'' ''proj''
                 (init_state demo_w0)))) = 30
   \<and> slept (trace (snd (createInstance (demoE never_running True True) demoF ''img'' ''proj''
                 (init_state demo_w0)))) = 580
   \<and> \<not> tr_exitOk (fst (testImage (demoE never_running True True) demoF ''img'' ''proj'' 1
                 (init_state demo_w0)))"
proof -
  let ?E = "demoE never_running True True"
  let ?c = "createInstance ?E demoF ''img'' ''proj'' (init_state demo_w0)"
  have h: "?c = ((fst (fst ?c), snd (fst ?c)), snd ?c)" by simp
  have i: "\<forall>i. fst (Instances_Insert ?E (flag_project demoF) (flag_zone demoF) i
                      (world (init_state demo_w0))) = Inr None"
    by (simp add: demoE_def)
  have z: "gets (trace (init_state demo_w0)) = 0" "slept (trace (init_state demo_w0)) = 0"
    by (simp_all add: init_state_def gets_def slept_def)
  show ?thesis
    using createInstance_polling_bounded[OF h, of 1] i z never_ready_demo[of True True demoF]
    by auto
qed

subsection \<open>Status polls and the docker probe share one budget\<close>







subsection \<open>The result of one target\<close>

lemma getArchive_filter:
  "\<not> P CreateTestArchiveCall \<Longrightarrow> filter P (trace (snd (getArchive E s))) = filter P (trace s)"
  by (cases "once_done (arc s)") (simp_all add: getArchive_done getArchive_fresh)

lemma testHost_outcome:
  assumes "testHost E F h df n sn s = (tr, s')"
  shows "(runs (trace s') = runs (trace s) \<and> \<not> tr_exitOk tr \<and> tr_err tr \<noteq> None)
       \<or> (runs (trace s') = Suc (runs (trace s))
          \<and> (\<exists>a w. (tr_output tr, tr_exitOk tr, tr_err tr)
                      = fst (RunRemote E a h df n sn (flag_testArgs F) w)))"
proof (cases rule: testHost_cases[of E F h s df n sn])
  case (lookup_failed e w1)
  then show ?thesis using assms by (auto simp: runs_def)
next
  case (not_running inst w1)
  then show ?thesis using assms by (auto simp: runs_def)
next
  case (archive_failed inst w1 s2 a e s3)
  have "filter is_RunRemote (trace s3) = filter is_RunRemote (trace s2)"
    using getArchive_filter[of is_RunRemote E s2] archive_failed(5) by simp
  then show ?thesis using archive_failed assms by (auto simp: runs_def)
next
  case (ran inst w1 s2 a s3 res w4)
  have "filter is_RunRemote (trace s3) = filter is_RunRemote (trace s2)"
    using getArchive_filter[of is_RunRemote E s2] ran(5) by simp
  then have "runs (trace s') = Suc (runs (trace s))"
    using ran assms by (auto simp: runs_def)
  moreover have "(tr_output tr, tr_exitOk tr, tr_err tr)
                      = fst (RunRemote E a h df n sn (flag_testArgs F) (world s3))"
    using ran assms by auto
  ultimately show ?thesis by blast
qed

text \<open>
  C10. \<open>testHost\<close> is the one path for every target, a fixed host from \<open>--hosts\<close>
  as much as a provisioned instance. Its first call is the lookup of an instance named as
  the host in the configured project and zone. If the lookup fails, or reports a status
  that is not RUNNING (letter case aside, as the code compares the upper-cased status), the
  result has \<open>exitOk\<close> false and an error, and the lookup is the only call made: the
  archive is not asked for and nothing is run remotely.
\<close>

theorem testHost_looks_up_instance_first:
  assumes "testHost E F h df n sn s = (tr, s')"
  shows "(\<exists>evs. trace s' = trace s @ Get (flag_project F) (flag_zone F) h # evs)
       \<and> (not_running (fst (Instances_Get E (flag_project F) (flag_zone F) h (world s))) \<longrightarrow>
            \<not> tr_exitOk tr \<and> tr_err tr \<noteq> None \<and> arc s' = arc s
            \<and> trace s' = trace s @ [Get (flag_project F) (flag_zone F) h])
       \<and> run_task E F (HostTask h n) s
           = (Some (fst (testHost E F h (flag_cleanup F) n (flag_setupNode F) s)),
              snd (testHost E F h (flag_cleanup F) n (flag_setupNode F) s))"
proof -
  have a: "\<exists>evs. trace s' = trace s @ Get (flag_project F) (flag_zone F) h # evs"
  proof (cases rule: testHost_cases[of E F h s df n sn])
    case (lookup_failed e w1)
    then show ?thesis using assms by auto
  next
    case (not_running inst w1)
    then show ?thesis using assms by auto
  next
    case (archive_failed inst w1 s2 a e s3)
    have "trace s3 = trace s2 \<or> trace s3 = trace s2 @ [CreateTestArchiveCall]"
      using archive_failed(5) getArchive_done[of s2 E] getArchive_fresh[of s2 E]
      by (cases "once_done (arc s2)") auto
    then show ?thesis using archive_failed assms by auto
  next
    case (ran inst w1 s2 a s3 res w4)
    have "trace s3 = trace s2 \<or> trace s3 = trace s2 @ [CreateTestArchiveCall]"
      using ran(5) getArchive_done[of s2 E] getArchive_fresh[of s2 E]
      by (cases "once_done (arc s2)") auto
    then show ?thesis using ran assms by auto
  qed
  have b: "\<not> tr_exitOk tr \<and> tr_err tr \<noteq> None \<and> arc s' = arc s
            \<and> trace s' = trace s @ [Get (flag_project F) (flag_zone F) h]"
    if nr: "not_running (fst (Instances_Get E (flag_project F) (flag_zone F) h (world s)))"
  proof (cases rule: testHost_cases[of E F h s df n sn])
    case (lookup_failed e w1)
    then show ?thesis using assms by auto
  next
    case (not_running inst w1)
    then show ?thesis using assms by auto
  next
    case (archive_failed inst w1 s2 a e s3)
    then show ?thesis using nr by (simp add: not_running_def)
  next
    case (ran inst w1 s2 a s3 res w4)
    then show ?thesis using nr by (simp add: not_running_def)
  qed
  have c: "run_task E F (HostTask h n) s
           = (Some (fst (testHost E F h (flag_cleanup F) n (flag_setupNode F) s)),
              snd (testHost E F h (flag_cleanup F) n (flag_setupNode F) s))"
    by (simp add: run_task_def split: prod.splits)
  from a b c show ?thesis by blast
qed

theorem testHost_looks_up_instance_first_witness:
  "not_running (fst (Instances_Get (demoE never_running True True) (flag_project demoF)
                       (flag_zone demoF) ''host1'' (world (init_state demo_w0))))
   \<and> \<not> tr_exitOk (fst (testHost (demoE never_running True True) demoF ''host1'' True 1 False
                          (init_state demo_w0)))
   \<and> tr_err (fst (testHost (demoE never_running True True) demoF ''host1'' True 1 False
                          (init_state demo_w0))) \<noteq> None
   \<and> trace (snd (testHost (demoE never_running True True) demoF ''host1'' True 1 False
                          (init_state demo_w0)))
       = [Get ''proj'' ''us-central1-f'' ''host1'']"
proof -
  let ?E = "demoE never_running True True"
  let ?t = "testHost ?E demoF ''host1'' True 1 False (init_state demo_w0)"
  have h: "?t = (fst ?t, snd ?t)" by simp
  have nr: "not_running (fst (Instances_Get ?E (flag_project demoF)
                       (flag_zone demoF) ''host1'' (world (init_state demo_w0))))"
    by (simp add: demoE_def not_running_def never_running_def toUpper_STAGING)
  have z: "trace (init_state demo_w0) = []" "flag_project demoF = ''proj''"
    "flag_zone demoF = ''us-central1-f''"
    by (simp_all add: init_state_def demoF_def)
  show ?thesis
    using testHost_looks_up_instance_first[OF h] nr z by simp
qed

lemma testImage_outcome:
  assumes "testImage E F img proj n s = (tr, s')"
  shows "(runs (trace s') = runs (trace s) \<and> \<not> tr_exitOk tr \<and> tr_err tr \<noteq> None)
       \<or> (runs (trace s') = Suc (runs (trace s))
          \<and> (\<exists>a h df sn w. (tr_output tr, tr_exitOk tr, tr_err tr)
                      = fst (RunRemote E a h df n sn (flag_testArgs F) w)))"
proof -
  obtain nm err s1 where c: "createInstance E F img proj s = ((nm, err), s1)"
    by (cases "createInstance E F img proj s") auto
  have r1: "runs (trace s1) = runs (trace s)"
    using createInstance_runs[of E F img proj s] c by simp
  show ?thesis
  proof (cases err)
    case (Some e)
    then have "tr = \<lparr>tr_output = [], tr_err = Some (UnableToCreateInstance img e), tr_host = [],
                     tr_exitOk = False\<rparr>"
      and "s' = (if flag_deleteInstances F then deleteInstance E F img s1 else s1)"
      using testImage_failed[of E F img proj s e n] c assms by simp_all
    then show ?thesis using r1 by (simp add: deleteInstance_runs)
  next
    case None
    obtain tr2 s2 where t: "testHost E F nm (\<not> flag_deleteInstances F \<and> flag_cleanup F) n
                              (flag_setupNode F) s1 = (tr2, s2)"
      by (cases "testHost E F nm (\<not> flag_deleteInstances F \<and> flag_cleanup F) n
                   (flag_setupNode F) s1")
    have e: "tr = tr2" "s' = (if flag_deleteInstances F then deleteInstance E F img s2 else s2)"
      using assms c None t by (simp_all add: testImage_def)
    have r2: "runs (trace s') = runs (trace s2)" using e(2) by (simp add: deleteInstance_runs)
    from testHost_outcome[OF t]
    consider (infra) "runs (trace s2) = runs (trace s1)" "\<not> tr_exitOk tr2" "tr_err tr2 \<noteq> None"
      | (remote) a w where "runs (trace s2) = Suc (runs (trace s1))"
          "(tr_output tr2, tr_exitOk tr2, tr_err tr2)
             = fst (RunRemote E a nm (\<not> flag_deleteInstances F \<and> flag_cleanup F) n
                      (flag_setupNode F) (flag_testArgs F) w)"
      by blast
    then show ?thesis
    proof cases
      case infra
      then show ?thesis using e(1) r1 r2 by simp
    next
      case remote
      have "\<exists>a h df sn w. (tr_output tr, tr_exitOk tr, tr_err tr)
                      = fst (RunRemote E a h df n sn (flag_testArgs F) w)"
        using remote(2) e(1) by blast
      then show ?thesis using remote(1) r1 r2 by simp
    qed
  qed
qed

lemma run_task_outcome:
  assumes "run_task E F t s = (Some tr, s')"
  shows "(runs (trace s') = runs (trace s) \<and> \<not> tr_exitOk tr \<and> tr_err tr \<noteq> None)
       \<or> (runs (trace s') = Suc (runs (trace s))
          \<and> (\<exists>a h df n sn w. (tr_output tr, tr_exitOk tr, tr_err tr)
                      = fst (RunRemote E a h df n sn (flag_testArgs F) w)))"
proof (cases t)
  case GetArchiveTask
  then show ?thesis using assms by (simp add: run_task_def)
next
  case (ImageTask img proj n)
  then have "testImage E F img proj n s = (tr, s')"
    using assms by (simp add: run_task_def split: prod.splits)
  from testImage_outcome[OF this] show ?thesis by blast
next
  case (HostTask h n)
  then have "testHost E F h (flag_cleanup F) n (flag_setupNode F) s = (tr, s')"
    using assms by (simp add: run_task_def split: prod.splits)
  from testHost_outcome[OF this] show ?thesis by blast
qed








subsection \<open>Deleting the instance of an image target\<close>

lemma poll_extends: "\<exists>evs. trace (snd (poll E F name i r e s)) = trace s @ evs"
proof (induction E F name i r e s rule: poll.induct)
  case (1 E F name i r e s)
  show ?case
  proof (cases "i < 30 \<and> \<not> r")
    case True
    obtain r1 e1 s1 where a: "attempt E F name i s = (r1, e1, s1)"
      by (cases "attempt E F name i s")
    obtain evs1 where t1: "trace s1 = trace s @ evs1"
      using attempt_shape[of E F name i s] a by auto
    obtain evs2 where "trace (snd (poll E F name (Suc i) r1 e1 s1)) = trace s1 @ evs2"
      using "1.IH"[OF True a[symmetric] refl refl] by blast
    then show ?thesis using True a t1 by (simp add: poll_step)
  next
    case False
    then show ?thesis by (simp add: poll_stop)
  qed
qed

lemma createInstance_extends:
  "\<exists>evs. trace (snd (createInstance E F img proj s)) = trace s @ evs"
proof (cases rule: createInstance_cases[of E F img proj s])
  case (failed i e s1)
  then show ?thesis by simp
next
  case (polled i s1)
  obtain evs1 where "trace s1 = trace s @ evs1" using polled(7) by blast
  moreover obtain evs2 where
    "trace (snd (poll E F (imageToInstanceName F img) 0 False None s1)) = trace s1 @ evs2"
    using poll_extends by blast
  ultimately show ?thesis using polled(1) by simp
qed

lemma getArchive_extends: "\<exists>evs. trace (snd (getArchive E s)) = trace s @ evs"
  by (cases "once_done (arc s)") (simp_all add: getArchive_done getArchive_fresh)

lemma testHost_extends: "\<exists>evs. trace (snd (testHost E F h df n sn s)) = trace s @ evs"
proof (cases rule: testHost_cases[of E F h s df n sn])
  case (lookup_failed e w1)
  then show ?thesis by simp
next
  case (not_running inst w1)
  then show ?thesis by simp
next
  case (archive_failed inst w1 s2 a e s3)
  obtain evs where "trace s3 = trace s2 @ evs"
    using getArchive_extends[of E s2] archive_failed(5) by auto
  then show ?thesis using archive_failed by simp
next
  case (ran inst w1 s2 a s3 res w4)
  obtain evs where "trace s3 = trace s2 @ evs"
    using getArchive_extends[of E s2] ran(5) by auto
  then show ?thesis using ran by simp
qed

lemma testHost_filter:
  assumes "\<And>p z n. \<not> P (Get p z n)" and "\<And>h ip. \<not> P (AddHostnameIpCall h ip)"
    and "\<not> P CreateTestArchiveCall" and "\<And>a h d n u t. \<not> P (RunRemoteCall a h d n u t)"
  shows "filter P (trace (snd (testHost E F h df n sn s))) = filter P (trace s)"
proof (cases rule: testHost_cases[of E F h s df n sn])
  case (lookup_failed e w1)
  then show ?thesis using assms by simp
next
  case (not_running inst w1)
  then show ?thesis using assms by simp
next
  case (archive_failed inst w1 s2 a e s3)
  have "filter P (trace s3) = filter P (trace s2)"
    using getArchive_filter[of P E s2] archive_failed(5) assms(3) by simp
  then show ?thesis using archive_failed assms by simp
next
  case (ran inst w1 s2 a s3 res w4)
  have "filter P (trace s3) = filter P (trace s2)"
    using getArchive_filter[of P E s2] ran(5) assms(3) by simp
  then show ?thesis using ran assms by simp
qed

lemma attempt_Delete_frame:
  "attempt (E\<lparr>Instances_Delete := d\<rparr>) F name i s = attempt E F name i s"
  by (simp add: attempt_def Let_def
        cong: sum.case_cong option.case_cong prod.case_cong if_cong)

lemma poll_Delete_frame:
  "poll (E\<lparr>Instances_Delete := d\<rparr>) F name i r e s = poll E F name i r e s"
proof (induction E F name i r e s rule: poll.induct)
  case (1 E F name i r e s)
  show ?case
  proof (cases "i < 30 \<and> \<not> r")
    case True
    obtain r1 e1 s1 where a: "attempt E F name i s = (r1, e1, s1)"
      by (cases "attempt E F name i s")
    show ?thesis
      using "1.IH"[OF True a[symmetric] refl refl] True a
      by (simp add: poll_step attempt_Delete_frame)
  next
    case False
    then show ?thesis by (simp add: poll_stop)
  qed
qed

lemma parseItems_Delete_frame:
  "parseItems (E\<lparr>Instances_Delete := d\<rparr>) ss m s = parseItems E ss m s"
  by (induction ss arbitrary: m s)
     (simp_all cong: sum.case_cong list.case_cong)

lemma createInstance_Delete_frame:
  "createInstance (E\<lparr>Instances_Delete := d\<rparr>) F img proj s = createInstance E F img proj s"
  by (simp add: createInstance_def parseInstanceMetadata_def parseItems_Delete_frame
        poll_Delete_frame Let_def
        cong: sum.case_cong option.case_cong prod.case_cong if_cong)

lemma getArchive_Delete_frame: "getArchive (E\<lparr>Instances_Delete := d\<rparr>) s = getArchive E s"
  by (simp add: getArchive_def Let_def cong: prod.case_cong if_cong)

lemma testHost_Delete_frame:
  "testHost (E\<lparr>Instances_Delete := d\<rparr>) F h df n sn s = testHost E F h df n sn s"
  by (simp add: testHost_def getArchive_Delete_frame Let_def
        cong: sum.case_cong option.case_cong prod.case_cong if_cong)

lemma deleteInstance_deletes: "deletes (trace (deleteInstance E F img s)) = Suc (deletes (trace s))"
  using deleteInstance_shape[of E F img s] by (auto simp: deletes_def)

lemma createInstance_deletes:
  "deletes (trace (snd (createInstance E F img proj s))) = deletes (trace s)"
  using createInstance_filter[of is_Delete E F img proj s] by (simp add: deletes_def)

lemma testHost_deletes:
  "deletes (trace (snd (testHost E F h df n sn s))) = deletes (trace s)"
  using testHost_filter[of is_Delete E F h df n sn s] by (simp add: deletes_def)

lemma testImage_split:
  "testImage E F img proj n s =
     (fst (before_deferred E F img proj n s),
      if flag_deleteInstances F then deleteInstance E F img (snd (before_deferred E F img proj n s))
      else snd (before_deferred E F img proj n s))"
proof -
  obtain c s1 where c: "createInstance E F img proj s = (c, s1)"
    by (cases "createInstance E F img proj s")
  define df where "df = (\<not> flag_deleteInstances F \<and> flag_cleanup F)"
  show ?thesis
  proof (cases "snd c")
    case None
    have "testImage E F img proj n s =
            (fst (testHost E F (fst c) df n (flag_setupNode F) s1),
             if flag_deleteInstances F
             then deleteInstance E F img (snd (testHost E F (fst c) df n (flag_setupNode F) s1))
             else snd (testHost E F (fst c) df n (flag_setupNode F) s1))"
      unfolding testImage_def c df_def[symmetric] using None
      by (simp add: Let_def df_def[symmetric] split: prod.splits)
    moreover have "before_deferred E F img proj n s = testHost E F (fst c) df n (flag_setupNode F) s1"
      unfolding before_deferred_def c df_def[symmetric] using None by simp
    ultimately show ?thesis by simp
  next
    case (Some e)
    then show ?thesis using c by (simp add: testImage_def before_deferred_def)
  qed
qed

lemma before_deferred_facts:
  "deletes (trace (snd (before_deferred E F img proj n s))) = deletes (trace s)
   \<and> (\<exists>evs. trace (snd (before_deferred E F img proj n s)) = trace s @ evs)
   \<and> before_deferred (E\<lparr>Instances_Delete := d\<rparr>) F img proj n s = before_deferred E F img proj n s"
proof -
  obtain nm err s1 where c: "createInstance E F img proj s = ((nm, err), s1)"
    by (cases "createInstance E F img proj s") auto
  have d1: "deletes (trace s1) = deletes (trace s)"
    using createInstance_deletes[of E F img proj s] c by simp
  obtain evs1 where x1: "trace s1 = trace s @ evs1"
    using createInstance_extends[of E F img proj s] c by auto
  have fr: "before_deferred (E\<lparr>Instances_Delete := d\<rparr>) F img proj n s
              = before_deferred E F img proj n s"
    by (simp add: before_deferred_def createInstance_Delete_frame testHost_Delete_frame
          cong: option.case_cong prod.case_cong)
  show ?thesis
  proof (cases err)
    case (Some e)
    then show ?thesis using c d1 x1 fr by (simp add: before_deferred_def)
  next
    case None
    let ?t = "testHost E F nm (\<not> flag_deleteInstances F \<and> flag_cleanup F) n (flag_setupNode F) s1"
    have b: "before_deferred E F img proj n s = ?t"
      using c None by (simp add: before_deferred_def)
    obtain evs2 where "trace (snd ?t) = trace s1 @ evs2" using testHost_extends by blast
    then have x2: "\<exists>evs. trace (snd ?t) = trace s @ evs" using x1 by simp
    have d2: "deletes (trace (snd ?t)) = deletes (trace s)"
      using testHost_deletes[of E F nm "\<not> flag_deleteInstances F \<and> flag_cleanup F" n
              "flag_setupNode F" s1] d1 by simp
    show ?thesis unfolding b fr[unfolded b] using d2 x2 by simp
  qed
qed

text \<open>
  C5, as the code has it. \<open>testImage\<close> defers \<open>deleteInstance\<close> only when
  \<open>--delete-instances\<close> is set (the default). Then the instance is deleted exactly once,
  whether or not creation, provisioning or the remote run succeeded, and after every other
  call made for the target: only the log line of a failed deletion can follow. Without the
  flag it is not deleted. What the deletion answers never reaches the target's
  \<open>TestResult\<close>, and two deletions that differ only in the error they report leave the
  same world and archive behind.
\<close>

theorem deleteInstance_once_when_flag_set:
  assumes "testImage E F img proj n s = (tr, s')"
  shows "deletes (trace s') = deletes (trace s) + (if flag_deleteInstances F then 1 else 0)
       \<and> (flag_deleteInstances F \<longrightarrow>
            (\<exists>evs logs. trace s' = trace s @ evs
                            @ Delete (flag_project F) (flag_zone F) (imageToInstanceName F img)
                            # logs
                 \<and> deletes evs = 0 \<and> (logs = [] \<or> (\<exists>m. logs = [Log m]))))
       \<and> fst (testImage (E\<lparr>Instances_Delete := d\<rparr>) F img proj n s) = tr
       \<and> ((\<forall>p z nm w. snd (d p z nm w) = snd (Instances_Delete E p z nm w)) \<longrightarrow>
            world (snd (testImage (E\<lparr>Instances_Delete := d\<rparr>) F img proj n s)) = world s'
            \<and> arc (snd (testImage (E\<lparr>Instances_Delete := d\<rparr>) F img proj n s)) = arc s')"
proof -
  let ?b = "before_deferred E F img proj n s"
  have tr: "tr = fst ?b"
    and s': "s' = (if flag_deleteInstances F then deleteInstance E F img (snd ?b) else snd ?b)"
    using assms testImage_split[of E F img proj n s] by simp_all
  have bf: "deletes (trace (snd ?b)) = deletes (trace s)"
    "before_deferred (E\<lparr>Instances_Delete := d\<rparr>) F img proj n s = ?b"
    using before_deferred_facts[of E F img proj n s d] by simp_all
  obtain evs where ev: "trace (snd ?b) = trace s @ evs"
    using before_deferred_facts[of E F img proj n s d] by blast
  have de: "deletes evs = 0" using bf(1) ev by (simp add: deletes_def)
  have a: "deletes (trace s') = deletes (trace s) + (if flag_deleteInstances F then 1 else 0)"
    using s' bf(1) by (simp add: deleteInstance_deletes)
  have b: "\<exists>evs logs. trace s' = trace s @ evs
                            @ Delete (flag_project F) (flag_zone F) (imageToInstanceName F img)
                            # logs
                 \<and> deletes evs = 0 \<and> (logs = [] \<or> (\<exists>m. logs = [Log m]))"
    if "flag_deleteInstances F"
  proof -
    have s'd: "s' = deleteInstance E F img (snd ?b)" using s' that by simp
    from deleteInstance_shape[of E F img "snd ?b"]
    obtain logs where "trace (deleteInstance E F img (snd ?b)) = trace (snd ?b)
                         @ Delete (flag_project F) (flag_zone F) (imageToInstanceName F img) # logs"
      and "logs = [] \<or> (\<exists>m. logs = [Log m])"
      by blast
    then show ?thesis using ev de s'd by auto
  qed
  let ?t' = "testImage (E\<lparr>Instances_Delete := d\<rparr>) F img proj n s"
  have t': "fst ?t' = fst ?b"
    "snd ?t' = (if flag_deleteInstances F
                then deleteInstance (E\<lparr>Instances_Delete := d\<rparr>) F img (snd ?b) else snd ?b)"
    using testImage_split[of "E\<lparr>Instances_Delete := d\<rparr>" F img proj n s] bf(2) by simp_all
  have c: "fst ?t' = tr" using t'(1) tr by simp
  have e: "world (snd ?t') = world s' \<and> arc (snd ?t') = arc s'"
    if "\<forall>p z nm w. snd (d p z nm w) = snd (Instances_Delete E p z nm w)"
  proof (cases "flag_deleteInstances F")
    case True
    have "world (deleteInstance (E\<lparr>Instances_Delete := d\<rparr>) F img (snd ?b))
            = world (deleteInstance E F img (snd ?b))"
      "arc (deleteInstance (E\<lparr>Instances_Delete := d\<rparr>) F img (snd ?b))
            = arc (deleteInstance E F img (snd ?b))"
      using deleteInstance_shape[of E F img "snd ?b"]
        deleteInstance_shape[of "E\<lparr>Instances_Delete := d\<rparr>" F img "snd ?b"] that
      by auto
    then show ?thesis using True t'(2) s' by simp
  next
    case False
    then show ?thesis using t'(2) s' by simp
  qed
  from a b c e show ?thesis by blast
qed

lemma demo_attempt_eval:
  "attempt (demoE always_running b x) F name 0 s
     = (True, None,
        \<lparr>world = (world s)\<lparr>polls := Suc (polls (world s))\<rparr>,
         trace = trace s @ [Get (flag_project F) (flag_zone F) name,
                            SshCall ''ssh'' [name, ''--'', ''sudo'', ''docker'', ''version'']],
         arc = arc s\<rparr>)"
  by (simp add: attempt_def demoE_def always_running_def toUpper_RUNNING getExternalIp_def
        called_def hasPrefix_def)

lemma demo_createInstance_eval:
  "flag_instanceMetadata F = [] \<Longrightarrow>
   createInstance (demoE always_running b x) F img proj s
     = ((imageToInstanceName F img, None),
        \<lparr>world = (world s)\<lparr>polls := Suc (polls (world s))\<rparr>,
         trace = trace s @ [Insert (flag_project F) (flag_zone F) (imageToInstanceName F img),
                            Get (flag_project F) (flag_zone F) (imageToInstanceName F img),
                            SshCall ''ssh'' [imageToInstanceName F img,
                                             ''--'', ''sudo'', ''docker'', ''version'']],
         arc = arc s\<rparr>)"
proof -
  assume m: "flag_instanceMetadata F = []"
  let ?E = "demoE always_running b x"
  let ?n = "imageToInstanceName F img"
  have p: "poll ?E F ?n 0 False None s1 =
             (None, snd (snd (attempt ?E F ?n 0 s1)))" for s1
    using poll_step[of 0 False ?E F ?n None s1]
      poll_stop[of 1 True ?E F ?n None "snd (snd (attempt ?E F ?n 0 s1))"]
    by (simp add: demo_attempt_eval)
  have i: "Instances_Insert ?E p z i w = (Inr None, w)" for p z i w
    by (simp add: demoE_def)
  show ?thesis
    by (simp add: createInstance_def m i p demo_attempt_eval called_def Let_def)
qed

text \<open>
  C5 as stated fails when the instances are to be kept: with \<open>--delete-instances=false\<close>
  an image target is provisioned and tested, and no deletion is issued.
\<close>

theorem keep_instances_no_delete:
  "\<not> flag_deleteInstances keepF
   \<and> deletes (trace (snd (testImage (demoE always_running True True) keepF ''img'' ''proj'' 1
                             (init_state demo_w0)))) = 0
   \<and> trace (snd (testImage (demoE always_running True True) keepF ''img'' ''proj'' 1
                   (init_state demo_w0)))
     = [Insert ''proj'' ''us-central1-f'' ''tmp-node-e2e-0a1b2c3d-img'',
        Get ''proj'' ''us-central1-f'' ''tmp-node-e2e-0a1b2c3d-img'',
        SshCall ''ssh'' [''tmp-node-e2e-0a1b2c3d-img'', ''--'', ''sudo'', ''docker'', ''version''],
        Get ''proj'' ''us-central1-f'' ''tmp-node-e2e-0a1b2c3d-img'',
        CreateTestArchiveCall,
        RunRemoteCall ''/tmp/e2e.tar.gz'' ''tmp-node-e2e-0a1b2c3d-img'' True 1 False []]"
proof -
  have m: "flag_instanceMetadata keepF = []" by (simp add: keepF_def demoF_def)
  have t: "trace (snd (testImage (demoE always_running True True) keepF ''img'' ''proj'' 1
                   (init_state demo_w0)))
     = [Insert ''proj'' ''us-central1-f'' ''tmp-node-e2e-0a1b2c3d-img'',
        Get ''proj'' ''us-central1-f'' ''tmp-node-e2e-0a1b2c3d-img'',
        SshCall ''ssh'' [''tmp-node-e2e-0a1b2c3d-img'', ''--'', ''sudo'', ''docker'', ''version''],
        Get ''proj'' ''us-central1-f'' ''tmp-node-e2e-0a1b2c3d-img'',
        CreateTestArchiveCall,
        RunRemoteCall ''/tmp/e2e.tar.gz'' ''tmp-node-e2e-0a1b2c3d-img'' True 1 False []]"
    by (simp add: testImage_def demo_createInstance_eval[OF m])
       (simp add: keepF_def demoF_def imageToInstanceName_def testHost_def demoE_def
          init_state_def demo_w0_def always_running_def toUpper_RUNNING getExternalIp_def
          getArchive_def called_def emit_def)
  have f: "\<not> flag_deleteInstances keepF" by (simp add: keepF_def)
  show ?thesis unfolding t using f by (simp add: deletes_def)
qed

theorem deleteInstance_once_when_flag_set_witness:
  "flag_deleteInstances demoF
   \<and> deletes (trace (snd (testImage (demoE always_running True True) demoF ''img'' ''proj'' 1
                             (init_state demo_w0)))) = 1
   \<and> fst (testImage ((demoE always_running True True)
                        \<lparr>Instances_Delete := (\<lambda>p z n w. (Some (External ''gone''), w))\<rparr>)
             demoF ''img'' ''proj'' 1 (init_state demo_w0))
     = fst (testImage (demoE always_running True True) demoF ''img'' ''proj'' 1
             (init_state demo_w0))"
proof -
  let ?E = "demoE always_running True True"
  let ?t = "testImage ?E demoF ''img'' ''proj'' 1 (init_state demo_w0)"
  have h: "?t = (fst ?t, snd ?t)" by simp
  have f: "flag_deleteInstances demoF" by (simp add: demoF_def)
  have z: "deletes (trace (init_state demo_w0)) = 0" by (simp add: init_state_def deletes_def)
  show ?thesis
    using deleteInstance_once_when_flag_set[OF h,
            of "\<lambda>p z n w. (Some (External ''gone''), w)"] f z
    by simp
qed

subsection \<open>Deleting the archive\<close>

lemma deleteArchive_done:
  "once_done (arc s) \<Longrightarrow>
   deleteArchive E s =
     (case arc_err (arc s) of
        Some e \<Rightarrow> s
      | None \<Rightarrow> called (Remove (arc_path (arc s))) (os_Remove E (arc_path (arc s)) (world s)) s)"
  by (simp add: deleteArchive_def getArchive_done called_def emit_def split: option.splits)

lemma deleteArchive_once_done: "once_done (arc (deleteArchive E s))"
  by (cases "once_done (arc s)")
     (simp_all add: deleteArchive_def getArchive_done getArchive_fresh emit_def
        split: option.splits)

lemma deleteArchive_fresh:
  "\<not> once_done (arc s) \<Longrightarrow>
   trace (deleteArchive E s) =
     trace s @ CreateTestArchiveCall
       # (case snd (fst (CreateTestArchive E (world s))) of
            Some e \<Rightarrow> []
          | None \<Rightarrow> [Remove (fst (fst (CreateTestArchive E (world s))))])"
  by (simp add: deleteArchive_def getArchive_fresh emit_def split: option.splits)

text \<open>
  C9, as the code has it. \<open>deleteArchive\<close> first asks \<open>getArchive\<close> for the
  memoised result, which runs the construction if no caller has run it yet. With a
  \<open>os.Remove\<close> that changes nothing when asked twice for the same path, a second
  \<open>deleteArchive\<close> leaves the world and the archive record as the first one left them and
  never builds again. When the construction has failed, before or inside the call, nothing
  is removed. When the construction had not run and succeeds inside the call, the artifact
  it has just built is removed.
\<close>

theorem deleteArchive_idempotent:
  assumes "\<And>p w. os_Remove E p (os_Remove E p w) = os_Remove E p w"
  shows "world (deleteArchive E (deleteArchive E s)) = world (deleteArchive E s)
       \<and> arc (deleteArchive E (deleteArchive E s)) = arc (deleteArchive E s)
       \<and> constructions (trace (deleteArchive E (deleteArchive E s)))
           = constructions (trace (deleteArchive E s))
       \<and> (once_done (arc s) \<and> arc_err (arc s) \<noteq> None \<longrightarrow> deleteArchive E s = s)
       \<and> (\<not> once_done (arc s) \<and> snd (fst (CreateTestArchive E (world s))) \<noteq> None \<longrightarrow>
            trace (deleteArchive E s) = trace s @ [CreateTestArchiveCall])
       \<and> (\<not> once_done (arc s) \<and> snd (fst (CreateTestArchive E (world s))) = None \<longrightarrow>
            trace (deleteArchive E s)
              = trace s @ [CreateTestArchiveCall,
                           Remove (fst (fst (CreateTestArchive E (world s))))])"
proof -
  let ?d = "deleteArchive E s"
  have od: "once_done (arc ?d)" by (rule deleteArchive_once_done)
  have dd: "deleteArchive E ?d =
     (case arc_err (arc ?d) of
        Some e \<Rightarrow> ?d
      | None \<Rightarrow> called (Remove (arc_path (arc ?d))) (os_Remove E (arc_path (arc ?d)) (world ?d)) ?d)"
    by (rule deleteArchive_done[OF od])
  have w: "arc_err (arc ?d) = None \<Longrightarrow>
           world ?d = os_Remove E (arc_path (arc ?d)) (world ?d)"
  proof (cases "once_done (arc s)")
    case True
    assume "arc_err (arc ?d) = None"
    then show ?thesis using True assms
      by (simp add: deleteArchive_done split: option.splits)
  next
    case False
    assume "arc_err (arc ?d) = None"
    then show ?thesis using False assms
      by (simp add: deleteArchive_def getArchive_fresh emit_def split: option.splits)
  qed
  have a: "world (deleteArchive E ?d) = world ?d" using dd w by (simp split: option.splits)
  have b: "arc (deleteArchive E ?d) = arc ?d" using dd by (simp split: option.splits)
  have c: "constructions (trace (deleteArchive E ?d)) = constructions (trace ?d)"
    using dd by (simp add: constructions_def split: option.splits)
  have d: "once_done (arc s) \<and> arc_err (arc s) \<noteq> None \<longrightarrow> ?d = s"
    by (auto simp: deleteArchive_done)
  have e: "\<not> once_done (arc s) \<and> snd (fst (CreateTestArchive E (world s))) \<noteq> None \<longrightarrow>
            trace ?d = trace s @ [CreateTestArchiveCall]"
    by (auto simp: deleteArchive_fresh)
  have f: "\<not> once_done (arc s) \<and> snd (fst (CreateTestArchive E (world s))) = None \<longrightarrow>
            trace ?d = trace s @ [CreateTestArchiveCall,
                           Remove (fst (fst (CreateTestArchive E (world s))))]"
    by (auto simp: deleteArchive_fresh)
  from a b c d e f show ?thesis by blast
qed

theorem deleteArchive_idempotent_witness:
  "(\<forall>p w. os_Remove (demoE always_running True True) p
             (os_Remove (demoE always_running True True) p w)
           = os_Remove (demoE always_running True True) p w)
   \<and> world (deleteArchive (demoE always_running True True)
              (deleteArchive (demoE always_running True True) (init_state demo_w0)))
     = world (deleteArchive (demoE always_running True True) (init_state demo_w0))
   \<and> arc (deleteArchive (demoE always_running True True)
              (deleteArchive (demoE always_running True True) (init_state demo_w0)))
     = arc (deleteArchive (demoE always_running True True) (init_state demo_w0))
   \<and> \<not> once_done (arc (init_state demo_w0))
   \<and> trace (deleteArchive (demoE always_running False True) (init_state demo_w0))
     = [CreateTestArchiveCall]"
proof -
  have r: "\<And>b p w. os_Remove (demoE always_running b True) p
             (os_Remove (demoE always_running b True) p w)
           = os_Remove (demoE always_running b True) p w"
    by (simp add: demoE_def)
  have n: "\<not> once_done (arc (init_state demo_w0))" by (simp add: init_state_def)
  have f: "snd (fst (CreateTestArchive (demoE always_running False True)
                       (world (init_state demo_w0)))) \<noteq> None"
    by (simp add: demoE_def)
  have z: "trace (init_state demo_w0) = []" by (simp add: init_state_def)
  show ?thesis
    using deleteArchive_idempotent[of "demoE always_running True True" "init_state demo_w0", OF r]
      deleteArchive_idempotent[of "demoE always_running False True" "init_state demo_w0", OF r]
      r n f z
    by simp
qed

text \<open>
  C9 as stated fails where the construction never ran: \<open>deleteArchive\<close> then builds the
  archive itself and removes it, so it does not remove nothing.
\<close>

theorem deleteArchive_builds_then_removes:
  "\<not> once_done (arc (init_state demo_w0))
   \<and> trace (deleteArchive (demoE always_running True True) (init_state demo_w0))
     = [CreateTestArchiveCall, Remove ''/tmp/e2e.tar.gz'']
   \<and> removes (trace (deleteArchive (demoE always_running True True) (init_state demo_w0))) = 1"
  by (simp add: deleteArchive_def getArchive_def init_state_def demoE_def emit_def removes_def)

subsection \<open>The orchestrator\<close>

lemma launchImages_result:
  "launchImages imgs running ts s = (running', ts', s') \<Longrightarrow>
   running' = running + length imgs
   \<and> length (filter is_target ts') = length (filter is_target ts) + length imgs
   \<and> length ts' = length ts + length imgs
   \<and> world s' = world s \<and> arc s' = arc s
   \<and> (\<forall>P. (\<forall>n. \<not> P (PrintInitImage n)) \<longrightarrow> filter P (trace s') = filter P (trace s))"
proof (induction imgs arbitrary: running ts s)
  case Nil
  then show ?case by simp
next
  case (Cons a imgs)
  obtain shortName img where a: "a = (shortName, img)" by (cases a)
  from Cons.prems have "launchImages imgs (Suc running)
       (ts @ [ImageTask (Image img) (Project img) (Suc running)])
       (emit (PrintInitImage shortName) s) = (running', ts', s')"
    by (simp add: a)
  from Cons.IH[OF this] show ?case by simp
qed

lemma launchHosts_result:
  "launchHosts hs running ts s = (running', ts', s') \<Longrightarrow>
   running' = running + length hs
   \<and> length (filter is_target ts') = length (filter is_target ts) + length hs
   \<and> length ts' = length ts + length hs
   \<and> world s' = world s \<and> arc s' = arc s
   \<and> (\<forall>P. (\<forall>n. \<not> P (PrintInitHost n)) \<longrightarrow> filter P (trace s') = filter P (trace s))"
proof (induction hs arbitrary: running ts s)
  case Nil
  then show ?case by simp
next
  case (Cons h hs)
  from Cons.prems have "launchHosts hs (Suc running) (ts @ [HostTask h (Suc running)])
       (emit (PrintInitHost h) s) = (running', ts', s')"
    by simp
  from Cons.IH[OF this] show ?case by simp
qed

lemma launch_result:
  assumes "launch F gceImages s = (running, ts, s')"
  shows "running = targets F gceImages"
    and "length (filter is_target ts) = targets F gceImages"
    and "length ts = Suc (targets F gceImages)"
    and "world s' = world s" and "arc s' = arc s"
    and "\<And>P. (\<And>n. \<not> P (PrintInitImage n)) \<Longrightarrow> (\<And>n. \<not> P (PrintInitHost n))
            \<Longrightarrow> filter P (trace s') = filter P (trace s)"
proof -
  obtain r1 ts1 s1 where li: "launchImages gceImages 0 [GetArchiveTask] s = (r1, ts1, s1)"
    by (cases "launchImages gceImages 0 [GetArchiveTask] s") auto
  note i = launchImages_result[OF li]
  have l: "launch F gceImages s =
             (if flag_hosts F \<noteq> []
              then launchHosts (strings_Split (flag_hosts F) (CHR '','')) r1 ts1 s1
              else (r1, ts1, s1))"
    by (simp add: launch_def li)
  have "running = targets F gceImages
      \<and> length (filter is_target ts) = targets F gceImages
      \<and> length ts = Suc (targets F gceImages)
      \<and> world s' = world s \<and> arc s' = arc s
      \<and> (\<forall>P. (\<forall>n. \<not> P (PrintInitImage n)) \<and> (\<forall>n. \<not> P (PrintInitHost n))
            \<longrightarrow> filter P (trace s') = filter P (trace s))"
  proof (cases "flag_hosts F = []")
    case True
    then show ?thesis using l assms i by (simp add: targets_def)
  next
    case False
    then have "launchHosts (strings_Split (flag_hosts F) (CHR '','')) r1 ts1 s1 = (running, ts, s')"
      using l assms by simp
    from launchHosts_result[OF this] i False show ?thesis by (simp add: targets_def)
  qed
  then show "running = targets F gceImages"
    and "length (filter is_target ts) = targets F gceImages"
    and "length ts = Suc (targets F gceImages)"
    and "world s' = world s" and "arc s' = arc s"
    and "\<And>P. (\<And>n. \<not> P (PrintInitImage n)) \<Longrightarrow> (\<And>n. \<not> P (PrintInitHost n))
            \<Longrightarrow> filter P (trace s') = filter P (trace s)"
    by blast+
qed

lemma scheduled_mset:
  assumes "mset sched = mset [0..<length ts]"
  shows "mset (scheduled sched ts) = mset ts"
proof -
  have "set sched = {0..<length ts}" using assms by (metis mset_eq_setD set_upt)
  then have "filter (\<lambda>i. i < length ts) sched = sched" by (auto simp: filter_id_conv)
  then have "mset (scheduled sched ts) = image_mset ((!) ts) (mset sched)"
    by (simp add: scheduled_def)
  also have "\<dots> = image_mset ((!) ts) (mset [0..<length ts])" using assms by simp
  also have "\<dots> = mset (map ((!) ts) [0..<length ts])" by simp
  also have "\<dots> = mset ts" by (simp add: map_nth)
  finally show ?thesis .
qed

lemma scheduled_targets:
  assumes "mset sched = mset [0..<length ts]"
  shows "length (filter is_target (scheduled sched ts)) = length (filter is_target ts)"
proof -
  have "mset (filter is_target (scheduled sched ts)) = mset (filter is_target ts)"
    using scheduled_mset[OF assms] by simp
  then show ?thesis by (metis size_mset)
qed

lemma testImage_filter:
  assumes "\<And>e. P e \<Longrightarrow> \<not> is_call e"
  shows "filter P (trace (snd (testImage E F img proj n s))) = filter P (trace s)"
proof -
  have np: "\<And>e. is_call e \<Longrightarrow> \<not> P e" using assms by blast
  obtain c s1 where c: "createInstance E F img proj s = (c, s1)"
    by (cases "createInstance E F img proj s")
  have f1: "filter P (trace s1) = filter P (trace s)"
    using createInstance_filter[of P E F img proj s] c np by simp
  have fb: "filter P (trace (snd (before_deferred E F img proj n s))) = filter P (trace s)"
  proof (cases "snd c")
    case None
    then show ?thesis
      using c f1 testHost_filter[of P E F "fst c" _ n _ s1] np
      by (simp add: before_deferred_def)
  next
    case (Some e)
    then show ?thesis using c f1 by (simp add: before_deferred_def)
  qed
  have fd: "filter P (trace (deleteInstance E F img s2)) = filter P (trace s2)" for s2
    using deleteInstance_shape[of E F img s2] np by auto
  show ?thesis using fb fd by (simp add: testImage_split)
qed

lemma run_task_filter:
  assumes "\<And>e. P e \<Longrightarrow> \<not> is_call e"
  shows "filter P (trace (snd (run_task E F t s))) = filter P (trace s)"
proof -
  have np: "\<And>e. is_call e \<Longrightarrow> \<not> P e" using assms by blast
  show ?thesis
  proof (cases t)
    case GetArchiveTask
    then show ?thesis using getArchive_filter[of P E s] np by (simp add: run_task_def)
  next
    case (ImageTask img proj n)
    obtain tr s1 where x: "testImage E F img proj n s = (tr, s1)"
      by (cases "testImage E F img proj n s")
    then show ?thesis using testImage_filter[of P E F img proj n s] assms ImageTask
      by (simp add: run_task_def)
  next
    case (HostTask h n)
    obtain tr s1 where x: "testHost E F h (flag_cleanup F) n (flag_setupNode F) s = (tr, s1)"
      by (cases "testHost E F h (flag_cleanup F) n (flag_setupNode F) s")
    then show ?thesis
      using testHost_filter[of P E F h "flag_cleanup F" n "flag_setupNode F" s] np HostTask
      by (simp add: run_task_def)
  qed
qed

lemma run_task_target: "(fst (run_task E F t s) \<noteq> None) = is_target t"
  by (cases t) (simp_all add: run_task_def split: prod.splits)

lemma run_tasks_facts:
  "length (fst (run_tasks E F ts s)) = length (filter is_target ts)
   \<and> ((\<forall>e. P e \<longrightarrow> \<not> is_call e) \<longrightarrow>
        filter P (trace (snd (run_tasks E F ts s))) = filter P (trace s))"
proof (induction ts arbitrary: s)
  case Nil
  then show ?case by simp
next
  case (Cons t ts)
  obtain r s1 where r: "run_task E F t s = (r, s1)" by (cases "run_task E F t s")
  obtain rs s2 where rs: "run_tasks E F ts s1 = (rs, s2)" by (cases "run_tasks E F ts s1")
  have a: "(r \<noteq> None) = is_target t" using run_task_target[of E F t s] r by simp
  have b: "(\<forall>e. P e \<longrightarrow> \<not> is_call e) \<longrightarrow> filter P (trace s1) = filter P (trace s)"
    using run_task_filter[of P E F t s] r by auto
  from Cons.IH[of s1] rs have c: "length rs = length (filter is_target ts)"
    "(\<forall>e. P e \<longrightarrow> \<not> is_call e) \<longrightarrow> filter P (trace s2) = filter P (trace s1)"
    by simp_all
  show ?case using r rs a b c by (cases r) auto
qed

lemma receive_step:
  "i < running \<Longrightarrow>
   receive i running (tr # rest) errCount exitOk s =
     receive (Suc i) running rest
       (case tr_err tr of Some e \<Rightarrow> Suc errCount | None \<Rightarrow> errCount)
       (exitOk \<and> tr_exitOk tr)
       (emit PrintSeparator
          (emit (case tr_err tr of
                   Some e \<Rightarrow> PrintFailure (tr_host tr) (tr_output tr) e
                 | None \<Rightarrow> PrintSuccess (tr_host tr) (tr_output tr))
             (emit PrintSeparator s)))"
  by (subst receive.simps) (simp split: option.splits)

lemma receive_done: "\<not> i < running \<Longrightarrow> receive i running results errCount exitOk s
                       = Some (errCount, exitOk, s)"
  by (subst receive.simps) simp

lemma receive_all:
  "i \<le> running \<Longrightarrow> length results = running - i \<Longrightarrow>
   \<exists>n s'. receive i running results errCount exitOk s
            = Some (n, exitOk \<and> list_all tr_exitOk results, s')
     \<and> reports (trace s') = reports (trace s) + length results
     \<and> world s' = world s \<and> arc s' = arc s
     \<and> (\<forall>P. (\<forall>e. P e \<longrightarrow> \<not> is_report e \<and> e \<noteq> PrintSeparator)
              \<longrightarrow> filter P (trace s') = filter P (trace s))"
proof (induction results arbitrary: i errCount exitOk s)
  case Nil
  then have "\<not> i < running" by simp
  then show ?case by (simp add: receive_done)
next
  case (Cons tr rest)
  then have lt: "i < running" and l: "length rest = running - Suc i" and le: "Suc i \<le> running"
    by simp_all
  let ?ev = "case tr_err tr of
               Some e \<Rightarrow> PrintFailure (tr_host tr) (tr_output tr) e
             | None \<Rightarrow> PrintSuccess (tr_host tr) (tr_output tr)"
  let ?s1 = "emit PrintSeparator (emit ?ev (emit PrintSeparator s))"
  have r: "is_report ?ev" by (simp split: option.splits)
  from Cons.IH[OF le l, of "case tr_err tr of Some e \<Rightarrow> Suc errCount | None \<Rightarrow> errCount"
                 "exitOk \<and> tr_exitOk tr" ?s1]
  obtain n s' where ih: "receive (Suc i) running rest
       (case tr_err tr of Some e \<Rightarrow> Suc errCount | None \<Rightarrow> errCount)
       (exitOk \<and> tr_exitOk tr) ?s1
       = Some (n, (exitOk \<and> tr_exitOk tr) \<and> list_all tr_exitOk rest, s')"
    and rp: "reports (trace s') = reports (trace ?s1) + length rest"
    and w: "world s' = world ?s1" and a: "arc s' = arc ?s1"
    and f: "\<forall>P. (\<forall>e. P e \<longrightarrow> \<not> is_report e \<and> e \<noteq> PrintSeparator)
              \<longrightarrow> filter P (trace s') = filter P (trace ?s1)"
    by blast
  have "receive i running (tr # rest) errCount exitOk s
          = Some (n, exitOk \<and> list_all tr_exitOk (tr # rest), s')"
    using receive_step[OF lt, of tr rest errCount exitOk s] ih by simp
  moreover have "reports (trace s') = reports (trace s) + length (tr # rest)"
    using rp r by (simp add: reports_def)
  moreover have "\<forall>P. (\<forall>e. P e \<longrightarrow> \<not> is_report e \<and> e \<noteq> PrintSeparator)
              \<longrightarrow> filter P (trace s') = filter P (trace s)"
  proof (intro allI impI)
    fix P assume p: "\<forall>e. P e \<longrightarrow> \<not> is_report e \<and> e \<noteq> PrintSeparator"
    then have "\<not> P ?ev" "\<not> P PrintSeparator" using r by blast+
    then show "filter P (trace s') = filter P (trace s)" using f p by simp
  qed
  ultimately show ?case using w a by simp
qed

lemma clientLoop_facts:
  "arc (snd (clientLoop E i err s)) = arc s
   \<and> ((\<not> P (Sleep 6) \<and> \<not> P DefaultClientCall \<and> \<not> P ComputeNewCall) \<longrightarrow>
        filter P (trace (snd (clientLoop E i err s))) = filter P (trace s))"
proof (induction E i err s rule: clientLoop.induct)
  case (1 E i err s)
  show ?case
  proof (cases "i < 10")
    case False
    then show ?thesis by (subst clientLoop.simps, subst (2) clientLoop.simps) simp
  next
    case True
    define s0 where "s0 = (if i > 0 then emit (Sleep 6) s else s)"
    obtain e1 w1 where d: "google_DefaultClient E (world s0) = (e1, w1)"
      by (cases "google_DefaultClient E (world s0)")
    define s1 where "s1 = called DefaultClientCall w1 s0"
    obtain e2 w2 where c: "compute_New E (world s1) = (e2, w2)"
      by (cases "compute_New E (world s1)")
    define s2 where "s2 = called ComputeNewCall w2 s1"
    have t: "arc s0 = arc s" "arc s1 = arc s" "arc s2 = arc s"
      "(\<not> P (Sleep 6) \<and> \<not> P DefaultClientCall \<and> \<not> P ComputeNewCall) \<longrightarrow> filter P (trace s0) = filter P (trace s)"
      "(\<not> P (Sleep 6) \<and> \<not> P DefaultClientCall \<and> \<not> P ComputeNewCall) \<longrightarrow> filter P (trace s1) = filter P (trace s)"
      "(\<not> P (Sleep 6) \<and> \<not> P DefaultClientCall \<and> \<not> P ComputeNewCall) \<longrightarrow> filter P (trace s2) = filter P (trace s)"
      by (auto simp: s0_def s1_def s2_def)
    have u: "clientLoop E i err s =
               (case e1 of
                  Some e \<Rightarrow> clientLoop E (Suc i) (Some e) s1
                | None \<Rightarrow> (case e2 of
                              Some e \<Rightarrow> clientLoop E (Suc i) (Some e) s2
                            | None \<Rightarrow> ((True, None), s2)))"
      using True d c
      by (subst clientLoop.simps)
         (simp add: s0_def[symmetric] s1_def[symmetric] s2_def[symmetric] Let_def
            split: option.splits)
    show ?thesis
    proof (cases e1)
      case (Some e)
      have "arc (snd (clientLoop E (Suc i) (Some e) s1)) = arc s1
          \<and> ((\<not> P (Sleep 6) \<and> \<not> P DefaultClientCall \<and> \<not> P ComputeNewCall) \<longrightarrow>
               filter P (trace (snd (clientLoop E (Suc i) (Some e) s1))) = filter P (trace s1))"
        using "1.IH"(2)[OF True s0_def refl d[symmetric] s1_def Some] by simp
      then show ?thesis using u Some t by simp
    next
      case None
      show ?thesis
      proof (cases e2)
        case n2: None
        then show ?thesis using u None t by simp
      next
        case (Some e)
        have "arc (snd (clientLoop E (Suc i) (Some e) s2)) = arc s2
          \<and> ((\<not> P (Sleep 6) \<and> \<not> P DefaultClientCall \<and> \<not> P ComputeNewCall) \<longrightarrow>
               filter P (trace (snd (clientLoop E (Suc i) (Some e) s2))) = filter P (trace s2))"
          using "1.IH"(1)[OF True s0_def refl d[symmetric] s1_def None refl c[symmetric] s2_def Some]
          by simp
        then show ?thesis using u None Some t by simp
      qed
    qed
  qed
qed

lemma main_unfold:
  assumes ok: "snd (fst (getComputeClient E s)) = None"
    and valid: "mset sched = mset [0..<Suc (targets F gceImages)]"
  shows "\<exists>ts s2 s3 s4 errCount.
           launch F gceImages (snd (getComputeClient E s)) = (targets F gceImages, ts, s2)
         \<and> run_tasks E F (scheduled sched ts) s2 = (produced E F gceImages sched s, s3)
         \<and> length (produced E F gceImages sched s) = targets F gceImages
         \<and> arc s2 = arc s
         \<and> (\<forall>P. \<not> P (Sleep 6) \<and> \<not> P DefaultClientCall \<and> \<not> P ComputeNewCall
                  \<and> (\<forall>n. \<not> P (PrintInitImage n) \<and> \<not> P (PrintInitHost n))
                  \<longrightarrow> filter P (trace s2) = filter P (trace s))
         \<and> (\<forall>P. (\<forall>e. P e \<longrightarrow> \<not> is_call e \<and> (\<forall>n. e \<noteq> PrintInitImage n \<and> e \<noteq> PrintInitHost n))
                  \<longrightarrow> filter P (trace s3) = filter P (trace s))
         \<and> world s4 = world s3 \<and> arc s4 = arc s3
         \<and> reports (trace s4) = reports (trace s3) + targets F gceImages
         \<and> (\<forall>P. (\<forall>e. P e \<longrightarrow> \<not> is_report e \<and> e \<noteq> PrintSeparator)
                  \<longrightarrow> filter P (trace s4) = filter P (trace s3))
         \<and> main E F gceImages sched s =
             (if list_all tr_exitOk (produced E F gceImages sched s)
              then (Some 0, deleteArchive E s4)
              else (Some 1, emit (PrintErrCount errCount) s4))"
proof -
  obtain c s1 where c: "getComputeClient E s = (c, s1)" by (cases "getComputeClient E s")
  have c2: "snd c = None" using ok c by simp
  have s1: "arc s1 = arc s"
    "\<And>P. \<not> P (Sleep 6) \<and> \<not> P DefaultClientCall \<and> \<not> P ComputeNewCall
          \<Longrightarrow> filter P (trace s1) = filter P (trace s)"
    using clientLoop_facts[of E 0 None s] c by (simp_all add: getComputeClient_def)
  obtain running ts s2 where l: "launch F gceImages s1 = (running, ts, s2)"
    by (cases "launch F gceImages s1") auto
  note lr = launch_result[OF l]
  obtain results s3 where r: "run_tasks E F (scheduled sched ts) s2 = (results, s3)"
    by (cases "run_tasks E F (scheduled sched ts) s2")
  have p: "produced E F gceImages sched s = results"
    by (simp add: produced_def c l r)
  have v: "mset sched = mset [0..<length ts]" using valid lr(3) by simp
  have len: "length results = targets F gceImages"
    using run_tasks_facts[of E F "scheduled sched ts" s2] r scheduled_targets[OF v] lr(2) by simp
  have f3: "\<forall>P. (\<forall>e. P e \<longrightarrow> \<not> is_call e \<and> (\<forall>n. e \<noteq> PrintInitImage n \<and> e \<noteq> PrintInitHost n))
                  \<longrightarrow> filter P (trace s3) = filter P (trace s)"
  proof (intro allI impI)
    fix P assume a: "\<forall>e. P e \<longrightarrow> \<not> is_call e \<and> (\<forall>n. e \<noteq> PrintInitImage n \<and> e \<noteq> PrintInitHost n)"
    have "\<not> P (Sleep 6) \<and> \<not> P DefaultClientCall \<and> \<not> P ComputeNewCall"
      using a by fastforce
    then have "filter P (trace s1) = filter P (trace s)" by (rule s1(2))
    moreover have "filter P (trace s2) = filter P (trace s1)" using lr(6)[of P] a by blast
    moreover have "filter P (trace s3) = filter P (trace s2)"
      using run_tasks_facts[of E F "scheduled sched ts" s2 P] r a by auto
    ultimately show "filter P (trace s3) = filter P (trace s)" by simp
  qed
  have "length results = running - 0" using len lr(1) by simp
  from receive_all[OF le0 this, of 0 True s3]
  obtain n s4 where rc0: "receive 0 running results 0 True s3
                           = Some (n, True \<and> list_all tr_exitOk results, s4)"
    and rp: "reports (trace s4) = reports (trace s3) + length results"
    and w4: "world s4 = world s3" and a4: "arc s4 = arc s3"
    and f4: "\<forall>P. (\<forall>e. P e \<longrightarrow> \<not> is_report e \<and> e \<noteq> PrintSeparator)
              \<longrightarrow> filter P (trace s4) = filter P (trace s3)"
    by (elim exE conjE)
  have rc: "receive 0 running results 0 True s3 = Some (n, list_all tr_exitOk results, s4)"
    using rc0 by simp
  have m: "main E F gceImages sched s =
             (if list_all tr_exitOk results
              then (Some 0, deleteArchive E s4)
              else (Some 1, emit (PrintErrCount n) s4))"
    by (simp add: main_def c c2 l r rc)
  have l': "launch F gceImages (snd (getComputeClient E s)) = (targets F gceImages, ts, s2)"
    using l lr(1) c by simp
  have r': "run_tasks E F (scheduled sched ts) s2 = (produced E F gceImages sched s, s3)"
    using r p by simp
  have len': "length (produced E F gceImages sched s) = targets F gceImages"
    using len p by simp
  have a2: "arc s2 = arc s" using lr(5) s1(1) by simp
  have f2: "\<forall>P. \<not> P (Sleep 6) \<and> \<not> P DefaultClientCall \<and> \<not> P ComputeNewCall
                  \<and> (\<forall>n. \<not> P (PrintInitImage n) \<and> \<not> P (PrintInitHost n))
                  \<longrightarrow> filter P (trace s2) = filter P (trace s)"
  proof (intro allI impI)
    fix P assume a: "\<not> P (Sleep 6) \<and> \<not> P DefaultClientCall \<and> \<not> P ComputeNewCall
                  \<and> (\<forall>n. \<not> P (PrintInitImage n) \<and> \<not> P (PrintInitHost n))"
    then have "filter P (trace s1) = filter P (trace s)" using s1(2)[of P] by blast
    moreover have "filter P (trace s2) = filter P (trace s1)" using lr(6)[of P] a by blast
    ultimately show "filter P (trace s2) = filter P (trace s)" by simp
  qed
  have rp': "reports (trace s4) = reports (trace s3) + targets F gceImages"
    using rp len by simp
  have m': "main E F gceImages sched s =
             (if list_all tr_exitOk (produced E F gceImages sched s)
              then (Some 0, deleteArchive E s4)
              else (Some 1, emit (PrintErrCount n) s4))"
    using m p by simp
  show ?thesis
    apply (rule exI[of _ ts], rule exI[of _ s2], rule exI[of _ s3], rule exI[of _ s4],
           rule exI[of _ n])
    apply (intro conjI)
    by (fact l' r' len' a2 f2 f3 w4 a4 rp' f4 m')+
qed

text \<open>
  C1. Once the compute client has been obtained, and whatever the order in which the
  goroutines run and deliver (any schedule that runs each of them once), the receive loop
  of \<open>main\<close> takes exactly one result per target, \<open>K\<close> in all for \<open>K\<close> images and
  hosts, and prints one report for each. The process exits with code 0 when every one of
  the \<open>K\<close> results has \<open>exitOk\<close>, and with code 1 otherwise.
\<close>

theorem main_collects_all_results:
  assumes "snd (fst (getComputeClient E s)) = None"
    and "mset sched = mset [0..<Suc (targets F gceImages)]"
  shows "length (produced E F gceImages sched s) = targets F gceImages
       \<and> reports (trace (snd (main E F gceImages sched s)))
           = reports (trace s) + targets F gceImages
       \<and> fst (main E F gceImages sched s)
           = Some (if list_all tr_exitOk (produced E F gceImages sched s) then 0 else 1)"
proof -
  from main_unfold[OF assms]
  obtain ts s2 s3 s4 errCount where
    "launch F gceImages (snd (getComputeClient E s)) = (targets F gceImages, ts, s2)"
    and "run_tasks E F (scheduled sched ts) s2 = (produced E F gceImages sched s, s3)"
    and len: "length (produced E F gceImages sched s) = targets F gceImages"
    and "arc s2 = arc s"
    and "\<forall>P. \<not> P (Sleep 6) \<and> \<not> P DefaultClientCall \<and> \<not> P ComputeNewCall
                  \<and> (\<forall>n. \<not> P (PrintInitImage n) \<and> \<not> P (PrintInitHost n))
                  \<longrightarrow> filter P (trace s2) = filter P (trace s)"
    and f3: "\<forall>P. (\<forall>e. P e \<longrightarrow> \<not> is_call e \<and> (\<forall>n. e \<noteq> PrintInitImage n \<and> e \<noteq> PrintInitHost n))
                  \<longrightarrow> filter P (trace s3) = filter P (trace s)"
    and "world s4 = world s3" and "arc s4 = arc s3"
    and rp: "reports (trace s4) = reports (trace s3) + targets F gceImages"
    and f4: "\<forall>P. (\<forall>e. P e \<longrightarrow> \<not> is_report e \<and> e \<noteq> PrintSeparator)
                  \<longrightarrow> filter P (trace s4) = filter P (trace s3)"
    and m: "main E F gceImages sched s =
             (if list_all tr_exitOk (produced E F gceImages sched s)
              then (Some 0, deleteArchive E s4)
              else (Some 1, emit (PrintErrCount errCount) s4))"
    by (elim exE conjE)
  have "\<forall>e. is_report e \<longrightarrow> \<not> is_call e \<and> (\<forall>n. e \<noteq> PrintInitImage n \<and> e \<noteq> PrintInitHost n)"
  proof
    fix e show "is_report e \<longrightarrow> \<not> is_call e \<and> (\<forall>n. e \<noteq> PrintInitImage n \<and> e \<noteq> PrintInitHost n)"
      by (cases e) simp_all
  qed
  then have r3: "reports (trace s3) = reports (trace s)" using f3 by (simp add: reports_def)
  have rd: "reports (trace (deleteArchive E s4)) = reports (trace s4)"
    by (cases "once_done (arc s4)")
       (simp_all add: deleteArchive_def getArchive_done getArchive_fresh emit_def reports_def
          split: option.splits)
  show ?thesis using len r3 rp rd m by (simp add: reports_def)
qed

subsection \<open>Whole runs: exit code, build errors and the archive on disk\<close>

lemma split_two_hosts: "strings_Split ''host1,failing-host'' (CHR '','') = [''host1'', ''failing-host'']"
  by simp

lemma demo_client:
  "getComputeClient (demoE st b x) s
     = ((True, None), s\<lparr>trace := trace s @ [DefaultClientCall, ComputeNewCall]\<rparr>)"
  by (simp add: getComputeClient_def clientLoop.simps[of _ 0] demoE_def called_def)

lemma demo_launch_two:
  "launch twoHostsF [] s
     = (2, [GetArchiveTask, HostTask ''host1'' 1, HostTask ''failing-host'' 2],
        s\<lparr>trace := trace s @ [PrintInitHost ''host1'', PrintInitHost ''failing-host'']\<rparr>)"
  by (simp add: launch_def twoHostsF_def demoF_def emit_def numeral_2_eq_2)

lemma demo_main_two_hosts:
  "main (demoE always_running True True) twoHostsF [] [0, 1, 2] (init_state demo_w0)
     = (Some 1,
        \<lparr>world = \<lparr>polls = 2, files = [''/tmp/e2e.tar.gz'']\<rparr>,
         trace = [DefaultClientCall, ComputeNewCall,
                  PrintInitHost ''host1'', PrintInitHost ''failing-host'',
                  CreateTestArchiveCall,
                  Get ''proj'' ''us-central1-f'' ''host1'',
                  RunRemoteCall ''/tmp/e2e.tar.gz'' ''host1'' True 1 False [],
                  Get ''proj'' ''us-central1-f'' ''failing-host'',
                  RunRemoteCall ''/tmp/e2e.tar.gz'' ''failing-host'' True 2 False [],
                  PrintSeparator, PrintSuccess ''host1'' ''ran'', PrintSeparator,
                  PrintSeparator, PrintSuccess ''failing-host'' ''ran'', PrintSeparator,
                  PrintErrCount 0],
         arc = \<lparr>once_done = True, arc_path = ''/tmp/e2e.tar.gz'', arc_err = None\<rparr>\<rparr>)"
  apply (simp add: main_def demo_client demo_launch_two scheduled_def)
  apply (simp add: run_task_def getArchive_def testHost_def demoE_def twoHostsF_def demoF_def
        init_state_def demo_w0_def always_running_def toUpper_RUNNING getExternalIp_def
        called_def emit_def Let_def)
  apply (simp add: receive.simps[of 0] receive.simps[of "Suc 0"] receive.simps[of 1]
        receive.simps[of 2] receive.simps[of "Suc (Suc 0)"] emit_def deleteArchive_def)
  done

lemma getArchive_build_failed:
  assumes "\<forall>w. snd (fst (CreateTestArchive E w)) \<noteq> None" and "build_failed (arc s)"
  shows "snd (fst (getArchive E s)) \<noteq> None \<and> build_failed (arc (snd (getArchive E s)))"
  using assms
  by (cases "once_done (arc s)") (simp_all add: getArchive_done getArchive_fresh build_failed_def)

lemma testHost_build_failed:
  assumes f: "\<forall>w. snd (fst (CreateTestArchive E w)) \<noteq> None" and b: "build_failed (arc s)"
  shows "runs (trace (snd (testHost E F h df n sn s))) = runs (trace s)
       \<and> build_failed (arc (snd (testHost E F h df n sn s)))"
proof (cases rule: testHost_cases[of E F h s df n sn])
  case (lookup_failed e w1)
  then show ?thesis using b by (simp add: runs_def)
next
  case (not_running inst w1)
  then show ?thesis using b by (simp add: runs_def)
next
  case (archive_failed inst w1 s2 a e s3)
  have b2: "build_failed (arc s2)" using b archive_failed(4) by simp
  have "filter is_RunRemote (trace s3) = filter is_RunRemote (trace s2)"
    using getArchive_filter[of is_RunRemote E s2] archive_failed(5) by simp
  moreover have "build_failed (arc s3)"
    using getArchive_build_failed[OF f b2] archive_failed(5) by simp
  ultimately show ?thesis using archive_failed by (simp add: runs_def)
next
  case (ran inst w1 s2 a s3 res w4)
  have b2: "build_failed (arc s2)" using b ran(4) by simp
  have False using getArchive_build_failed[OF f b2] ran(5) by simp
  then show ?thesis ..
qed

lemma run_task_build_failed:
  assumes f: "\<forall>w. snd (fst (CreateTestArchive E w)) \<noteq> None" and b: "build_failed (arc s)"
  shows "runs (trace (snd (run_task E F t s))) = runs (trace s)
       \<and> build_failed (arc (snd (run_task E F t s)))"
proof (cases t)
  case GetArchiveTask
  then show ?thesis
    using getArchive_build_failed[OF f b] getArchive_filter[of is_RunRemote E s]
    by (simp add: run_task_def runs_def)
next
  case (ImageTask img proj n)
  obtain nm err s1 where ci: "createInstance E F img proj s = ((nm, err), s1)"
    by (cases "createInstance E F img proj s") auto
  have c: "runs (trace s1) = runs (trace s)" "build_failed (arc s1)"
    using createInstance_runs[of E F img proj s] createInstance_arc[of E F img proj s] b ci
    by simp_all
  let ?b = "before_deferred E F img proj n s"
  have bd: "runs (trace (snd ?b)) = runs (trace s) \<and> build_failed (arc (snd ?b))"
  proof (cases err)
    case None
    then have "?b = testHost E F nm (\<not> flag_deleteInstances F \<and> flag_cleanup F) n
                      (flag_setupNode F) s1"
      by (simp add: before_deferred_def ci)
    then show ?thesis using testHost_build_failed[OF f c(2)] c(1) by simp
  next
    case (Some e)
    then have "snd ?b = s1" by (simp add: before_deferred_def ci)
    then show ?thesis using c by simp
  qed
  have d: "arc (deleteInstance E F img s2) = arc s2" for s2
    using deleteInstance_shape[of E F img s2] by auto
  have "snd (run_task E F t s) = snd (testImage E F img proj n s)"
    using ImageTask by (simp add: run_task_def split: prod.splits)
  then show ?thesis using bd d by (simp add: testImage_split deleteInstance_runs)
next
  case (HostTask h n)
  have "snd (run_task E F t s) = snd (testHost E F h (flag_cleanup F) n (flag_setupNode F) s)"
    using HostTask by (simp add: run_task_def split: prod.splits)
  then show ?thesis using testHost_build_failed[OF f b] by simp
qed

lemma run_tasks_build_failed:
  assumes f: "\<forall>w. snd (fst (CreateTestArchive E w)) \<noteq> None"
  shows "build_failed (arc s) \<Longrightarrow>
         list_all (\<lambda>tr. \<not> tr_exitOk tr \<and> tr_err tr \<noteq> None) (fst (run_tasks E F ts s))
         \<and> runs (trace (snd (run_tasks E F ts s))) = runs (trace s)"
proof (induction ts arbitrary: s)
  case Nil
  then show ?case by simp
next
  case (Cons t ts)
  obtain r s1 where r: "run_task E F t s = (r, s1)" by (cases "run_task E F t s")
  obtain rs s2 where rs: "run_tasks E F ts s1 = (rs, s2)" by (cases "run_tasks E F ts s1")
  have t1: "runs (trace s1) = runs (trace s)" "build_failed (arc s1)"
    using run_task_build_failed[OF f Cons.prems, of F t] r by simp_all
  have ih: "list_all (\<lambda>tr. \<not> tr_exitOk tr \<and> tr_err tr \<noteq> None) rs"
    "runs (trace s2) = runs (trace s1)"
    using Cons.IH[OF t1(2)] rs by simp_all
  have hd: "\<not> tr_exitOk tr \<and> tr_err tr \<noteq> None" if "r = Some tr" for tr
    using run_task_outcome[of E F t s tr s1] r that t1(1) by auto
  show ?case using r rs ih t1(1) hd by (cases r) simp_all
qed

lemma deleteArchive_runs: "runs (trace (deleteArchive E s)) = runs (trace s)"
  by (cases "once_done (arc s)")
     (simp_all add: deleteArchive_def getArchive_done getArchive_fresh emit_def runs_def
        split: option.splits)

text \<open>
  C8, as the code has it. No error of a target ends the process: with the compute client
  obtained, \<open>main\<close> always collects all \<open>K\<close> results and exits with 0 or 1. That holds
  for a failed archive construction too, which \<open>testHost\<close> does not log as fatal: when
  the construction fails, every target returns a result with an error and \<open>exitOk\<close>
  false, \<open>RunRemote\<close> is never called (the docker probe of provisioning still
  runs), and with at least one target the exit code is 1.
\<close>

theorem build_error_reported_per_target:
  assumes "snd (fst (getComputeClient E s)) = None"
    and "mset sched = mset [0..<Suc (targets F gceImages)]"
  shows "(fst (main E F gceImages sched s) = Some 0 \<or> fst (main E F gceImages sched s) = Some 1)
       \<and> length (produced E F gceImages sched s) = targets F gceImages
       \<and> (\<not> once_done (arc s) \<and> (\<forall>w. snd (fst (CreateTestArchive E w)) \<noteq> None) \<longrightarrow>
            list_all (\<lambda>tr. \<not> tr_exitOk tr \<and> tr_err tr \<noteq> None) (produced E F gceImages sched s)
            \<and> runs (trace (snd (main E F gceImages sched s))) = runs (trace s)
            \<and> (0 < targets F gceImages \<longrightarrow> fst (main E F gceImages sched s) = Some 1))"
proof -
  from main_unfold[OF assms]
  obtain ts s2 s3 s4 errCount where
    l: "launch F gceImages (snd (getComputeClient E s)) = (targets F gceImages, ts, s2)"
    and r: "run_tasks E F (scheduled sched ts) s2 = (produced E F gceImages sched s, s3)"
    and len: "length (produced E F gceImages sched s) = targets F gceImages"
    and a2: "arc s2 = arc s"
    and f2: "\<forall>P. \<not> P (Sleep 6) \<and> \<not> P DefaultClientCall \<and> \<not> P ComputeNewCall
                  \<and> (\<forall>n. \<not> P (PrintInitImage n) \<and> \<not> P (PrintInitHost n))
                  \<longrightarrow> filter P (trace s2) = filter P (trace s)"
    and f3: "\<forall>P. (\<forall>e. P e \<longrightarrow> \<not> is_call e \<and> (\<forall>n. e \<noteq> PrintInitImage n \<and> e \<noteq> PrintInitHost n))
                  \<longrightarrow> filter P (trace s3) = filter P (trace s)"
    and "world s4 = world s3" and "arc s4 = arc s3"
    and rp: "reports (trace s4) = reports (trace s3) + targets F gceImages"
    and f4: "\<forall>P. (\<forall>e. P e \<longrightarrow> \<not> is_report e \<and> e \<noteq> PrintSeparator)
                  \<longrightarrow> filter P (trace s4) = filter P (trace s3)"
    and m: "main E F gceImages sched s =
             (if list_all tr_exitOk (produced E F gceImages sched s)
              then (Some 0, deleteArchive E s4)
              else (Some 1, emit (PrintErrCount errCount) s4))"
    by (elim exE conjE)
  have a: "fst (main E F gceImages sched s) = Some 0 \<or> fst (main E F gceImages sched s) = Some 1"
    using m by simp
  have b: "list_all (\<lambda>tr. \<not> tr_exitOk tr \<and> tr_err tr \<noteq> None) (produced E F gceImages sched s)
            \<and> runs (trace (snd (main E F gceImages sched s))) = runs (trace s)
            \<and> (0 < targets F gceImages \<longrightarrow> fst (main E F gceImages sched s) = Some 1)"
    if fresh: "\<not> once_done (arc s)" and f: "\<forall>w. snd (fst (CreateTestArchive E w)) \<noteq> None"
  proof -
    have bf: "build_failed (arc s2)" using a2 fresh by (simp add: build_failed_def)
    have la: "list_all (\<lambda>tr. \<not> tr_exitOk tr \<and> tr_err tr \<noteq> None)
                (produced E F gceImages sched s)"
      and r3: "runs (trace s3) = runs (trace s2)"
      using run_tasks_build_failed[OF f bf, of F "scheduled sched ts"] r by simp_all
    have p: "\<forall>e. is_RunRemote e \<longrightarrow> \<not> is_report e \<and> e \<noteq> PrintSeparator"
    proof
      fix e show "is_RunRemote e \<longrightarrow> \<not> is_report e \<and> e \<noteq> PrintSeparator" by (cases e) simp_all
    qed
    have r4: "runs (trace s4) = runs (trace s3)" using f4 p by (simp add: runs_def)
    have r2: "runs (trace s2) = runs (trace s)" using f2 by (simp add: runs_def)
    have rm: "runs (trace (snd (main E F gceImages sched s))) = runs (trace s)"
      using m r4 r3 r2 deleteArchive_runs[of E s4] by (simp add: runs_def)
    have ex: "fst (main E F gceImages sched s) = Some 1" if pos: "0 < targets F gceImages"
    proof -
      obtain tr rest where "produced E F gceImages sched s = tr # rest"
        using len pos by (cases "produced E F gceImages sched s") auto
      then have "\<not> list_all tr_exitOk (produced E F gceImages sched s)" using la by simp
      then show ?thesis using m by simp
    qed
    from la rm ex show ?thesis by blast
  qed
  from a len b show ?thesis by blast
qed

lemma demo_main_build_fails:
  "main (demoE always_running False True) twoHostsF [] [0, 1, 2] (init_state demo_w0)
     = (Some 1,
        \<lparr>world = \<lparr>polls = 2, files = []\<rparr>,
         trace = [DefaultClientCall, ComputeNewCall,
                  PrintInitHost ''host1'', PrintInitHost ''failing-host'',
                  CreateTestArchiveCall,
                  Get ''proj'' ''us-central1-f'' ''host1'',
                  Get ''proj'' ''us-central1-f'' ''failing-host'',
                  PrintSeparator,
                  PrintFailure [] [] (UnableToCreateArchive (External ''build failed'')),
                  PrintSeparator,
                  PrintSeparator,
                  PrintFailure [] [] (UnableToCreateArchive (External ''build failed'')),
                  PrintSeparator,
                  PrintErrCount 2],
         arc = \<lparr>once_done = True, arc_path = [],
                arc_err = Some (External ''build failed'')\<rparr>\<rparr>)"
  apply (simp add: main_def demo_client demo_launch_two scheduled_def)
  apply (simp add: run_task_def getArchive_def testHost_def demoE_def twoHostsF_def demoF_def
        init_state_def demo_w0_def always_running_def toUpper_RUNNING getExternalIp_def
        called_def emit_def Let_def)
  apply (simp add: receive.simps[of 0] receive.simps[of "Suc 0"] receive.simps[of 1]
        receive.simps[of 2] receive.simps[of "Suc (Suc 0)"] emit_def deleteArchive_def)
  done

lemma demo_valid_schedule: "mset [0, 1, 2] = mset [0..<Suc (targets twoHostsF [])]"
proof -
  have "targets twoHostsF [] = 2" by (simp add: targets_def twoHostsF_def)
  moreover have "[0..<Suc 2] = [0, 1, 2]" by (simp add: upt_rec)
  ultimately show ?thesis by simp
qed

lemma demo_client_ok: "snd (fst (getComputeClient (demoE st b x) s)) = None"
  by (simp add: demo_client)

theorem main_collects_all_results_witness:
  "mset [0, 1, 2] = mset [0..<Suc (targets twoHostsF [])]
   \<and> length (produced (demoE always_running True True) twoHostsF [] [0, 1, 2]
               (init_state demo_w0)) = 2
   \<and> reports (trace (snd (main (demoE always_running True True) twoHostsF [] [0, 1, 2]
                             (init_state demo_w0)))) = 2
   \<and> \<not> list_all tr_exitOk (produced (demoE always_running True True) twoHostsF [] [0, 1, 2]
                              (init_state demo_w0))
   \<and> fst (main (demoE always_running True True) twoHostsF [] [0, 1, 2] (init_state demo_w0))
       = Some 1"
proof -
  have t: "targets twoHostsF [] = 2" by (simp add: targets_def twoHostsF_def)
  have z: "reports (trace (init_state demo_w0)) = 0" by (simp add: init_state_def reports_def)
  have m: "fst (main (demoE always_running True True) twoHostsF [] [0, 1, 2] (init_state demo_w0))
             = Some 1"
    unfolding demo_main_two_hosts by simp
  let ?E = "demoE always_running True True"
  let ?s0 = "init_state demo_w0"
  have th: "length (produced ?E twoHostsF [] [0, 1, 2] ?s0) = targets twoHostsF []
       \<and> reports (trace (snd (main ?E twoHostsF [] [0, 1, 2] ?s0)))
           = reports (trace ?s0) + targets twoHostsF []
       \<and> fst (main ?E twoHostsF [] [0, 1, 2] ?s0)
           = Some (if list_all tr_exitOk (produced ?E twoHostsF [] [0, 1, 2] ?s0) then 0 else 1)"
    by (rule main_collects_all_results[OF demo_client_ok demo_valid_schedule])
  have a: "length (produced ?E twoHostsF [] [0, 1, 2] ?s0) = 2" using th t by simp
  have b: "reports (trace (snd (main ?E twoHostsF [] [0, 1, 2] ?s0))) = 2"
    using th t z by simp
  have c: "\<not> list_all tr_exitOk (produced ?E twoHostsF [] [0, 1, 2] ?s0)"
  proof
    assume "list_all tr_exitOk (produced ?E twoHostsF [] [0, 1, 2] ?s0)"
    then have "fst (main ?E twoHostsF [] [0, 1, 2] ?s0) = Some 0" using th by simp
    then show False using m by simp
  qed
  from demo_valid_schedule a b c m show ?thesis by (intro conjI)
qed

text \<open>
  C8 as stated fails: a failed construction does not end the run at once. With two hosts
  and a build that fails, \<open>main\<close> goes on to look both instances up, receives a result
  from each target, reports both, and exits with code 1 through the ordinary path of a
  failed run.
\<close>

theorem build_error_does_not_stop_the_run:
  "fst (main (demoE always_running False True) twoHostsF [] [0, 1, 2] (init_state demo_w0))
     = Some 1
   \<and> trace (snd (main (demoE always_running False True) twoHostsF [] [0, 1, 2]
                   (init_state demo_w0)))
     = [DefaultClientCall, ComputeNewCall,
        PrintInitHost ''host1'', PrintInitHost ''failing-host'',
        CreateTestArchiveCall,
        Get ''proj'' ''us-central1-f'' ''host1'',
        Get ''proj'' ''us-central1-f'' ''failing-host'',
        PrintSeparator,
        PrintFailure [] [] (UnableToCreateArchive (External ''build failed'')),
        PrintSeparator,
        PrintSeparator,
        PrintFailure [] [] (UnableToCreateArchive (External ''build failed'')),
        PrintSeparator,
        PrintErrCount 2]"
  unfolding demo_main_build_fails by simp

theorem build_error_reported_per_target_witness:
  "\<not> once_done (arc (init_state demo_w0))
   \<and> (\<forall>w. snd (fst (CreateTestArchive (demoE always_running False True) w)) \<noteq> None)
   \<and> 0 < targets twoHostsF []
   \<and> list_all (\<lambda>tr. \<not> tr_exitOk tr \<and> tr_err tr \<noteq> None)
        (produced (demoE always_running False True) twoHostsF [] [0, 1, 2] (init_state demo_w0))
   \<and> fst (main (demoE always_running False True) twoHostsF [] [0, 1, 2] (init_state demo_w0))
       = Some 1"
proof -
  have t: "targets twoHostsF [] = 2" by (simp add: targets_def twoHostsF_def)
  have n: "\<not> once_done (arc (init_state demo_w0))" by (simp add: init_state_def)
  have f: "\<forall>w. snd (fst (CreateTestArchive (demoE always_running False True) w)) \<noteq> None"
    by (simp add: demoE_def)
  let ?E = "demoE always_running False True"
  let ?s0 = "init_state demo_w0"
  have th: "(fst (main ?E twoHostsF [] [0, 1, 2] ?s0) = Some 0
             \<or> fst (main ?E twoHostsF [] [0, 1, 2] ?s0) = Some 1)
       \<and> length (produced ?E twoHostsF [] [0, 1, 2] ?s0) = targets twoHostsF []
       \<and> (\<not> once_done (arc ?s0) \<and> (\<forall>w. snd (fst (CreateTestArchive ?E w)) \<noteq> None) \<longrightarrow>
            list_all (\<lambda>tr. \<not> tr_exitOk tr \<and> tr_err tr \<noteq> None)
              (produced ?E twoHostsF [] [0, 1, 2] ?s0)
            \<and> runs (trace (snd (main ?E twoHostsF [] [0, 1, 2] ?s0))) = runs (trace ?s0)
            \<and> (0 < targets twoHostsF [] \<longrightarrow> fst (main ?E twoHostsF [] [0, 1, 2] ?s0) = Some 1))"
    by (rule build_error_reported_per_target[OF demo_client_ok demo_valid_schedule])
  have p: "0 < targets twoHostsF []" using t by simp
  from th n f p show ?thesis by blast
qed

lemma failed_run_keeps_archive:
  assumes "snd (fst (getComputeClient E s)) = None"
    and "mset sched = mset [0..<Suc (targets F gceImages)]"
    and "fst (main E F gceImages sched s) = Some 1"
  shows "removes (trace (snd (main E F gceImages sched s))) = removes (trace s)"
proof -
  from main_unfold[OF assms(1,2)]
  obtain ts s2 s3 s4 errCount where
    l: "launch F gceImages (snd (getComputeClient E s)) = (targets F gceImages, ts, s2)"
    and r: "run_tasks E F (scheduled sched ts) s2 = (produced E F gceImages sched s, s3)"
    and len: "length (produced E F gceImages sched s) = targets F gceImages"
    and a2: "arc s2 = arc s"
    and f2: "\<forall>P. \<not> P (Sleep 6) \<and> \<not> P DefaultClientCall \<and> \<not> P ComputeNewCall
                  \<and> (\<forall>n. \<not> P (PrintInitImage n) \<and> \<not> P (PrintInitHost n))
                  \<longrightarrow> filter P (trace s2) = filter P (trace s)"
    and f3: "\<forall>P. (\<forall>e. P e \<longrightarrow> \<not> is_call e \<and> (\<forall>n. e \<noteq> PrintInitImage n \<and> e \<noteq> PrintInitHost n))
                  \<longrightarrow> filter P (trace s3) = filter P (trace s)"
    and "world s4 = world s3" and "arc s4 = arc s3"
    and rp: "reports (trace s4) = reports (trace s3) + targets F gceImages"
    and f4: "\<forall>P. (\<forall>e. P e \<longrightarrow> \<not> is_report e \<and> e \<noteq> PrintSeparator)
                  \<longrightarrow> filter P (trace s4) = filter P (trace s3)"
    and m: "main E F gceImages sched s =
             (if list_all tr_exitOk (produced E F gceImages sched s)
              then (Some 0, deleteArchive E s4)
              else (Some 1, emit (PrintErrCount errCount) s4))"
    by (elim exE conjE)
  let ?P = "\<lambda>e. case e of Remove p \<Rightarrow> True | _ \<Rightarrow> False"
  have p3: "\<forall>e. ?P e \<longrightarrow> \<not> is_call e \<and> (\<forall>n. e \<noteq> PrintInitImage n \<and> e \<noteq> PrintInitHost n)"
  proof
    fix e show "?P e \<longrightarrow> \<not> is_call e \<and> (\<forall>n. e \<noteq> PrintInitImage n \<and> e \<noteq> PrintInitHost n)"
      by (cases e) simp_all
  qed
  have p4: "\<forall>e. ?P e \<longrightarrow> \<not> is_report e \<and> e \<noteq> PrintSeparator"
  proof
    fix e show "?P e \<longrightarrow> \<not> is_report e \<and> e \<noteq> PrintSeparator" by (cases e) simp_all
  qed
  have "filter ?P (trace s3) = filter ?P (trace s)" using f3 p3 by blast
  moreover have "filter ?P (trace s4) = filter ?P (trace s3)" using f4 p4 by blast
  moreover have "snd (main E F gceImages sched s) = emit (PrintErrCount errCount) s4"
    using m assms(3) by (simp split: if_splits)
  ultimately show ?thesis by (simp add: removes_def)
qed

text \<open>
  C7. With two hosts, a successful build and a remote test that exits non-zero on one of
  them, \<open>main\<close> exits with code 1 through \<open>os.Exit\<close>, which does not run the deferred
  \<open>deleteArchive\<close>: the archive was built once, \<open>os.Remove\<close> is never called, and the
  file is still on disk when the process ends.
\<close>

theorem failed_run_leaves_archive_behind:
  "fst (main (demoE always_running True True) twoHostsF [] [0, 1, 2] (init_state demo_w0))
     = Some 1
   \<and> constructions (trace (snd (main (demoE always_running True True) twoHostsF [] [0, 1, 2]
                                   (init_state demo_w0)))) = 1
   \<and> removes (trace (snd (main (demoE always_running True True) twoHostsF [] [0, 1, 2]
                             (init_state demo_w0)))) = 0
   \<and> files (world (snd (main (demoE always_running True True) twoHostsF [] [0, 1, 2]
                           (init_state demo_w0)))) = [''/tmp/e2e.tar.gz'']"
  unfolding demo_main_two_hosts by (simp add: constructions_def removes_def)

end
